theory Spec2Isabelle
  imports
    Main
    "HOL-Library.Word"
    "HOL-Library.AList"
    "HOL-Library.Char_ord"
    "HOL-Library.List_Lexorder"
    "HOL-Library.Product_Lexorder"
begin

section \<open>Domain model (package tixer)\<close>

text \<open>
  A Go \<^verbatim>\<open>string\<close> is a sequence of bytes and \<^verbatim>\<open>len\<close> counts bytes; \<^typ>\<open>string\<close>
  is a list of 8-bit characters, so \<^term>\<open>length\<close> is Go's \<^verbatim>\<open>len\<close>.
  A \<^verbatim>\<open>uuid.UUID\<close> is 16 bytes, read here as one 128-bit word (first byte most
  significant). A \<^verbatim>\<open>float64\<close> is kept as its 64 bits: the store only compares it with
  zero and copies it. A \<^verbatim>\<open>time.Time\<close> is the number of microseconds since
  0001-01-01T00:00:00Z, so that the zero value \<^verbatim>\<open>time.Time{}\<close> is \<open>0\<close>.
\<close>

type_synonym UUID = "128 word"
type_synonym TicketID = UUID
type_synonym float64 = "64 word"
type_synonym time = nat

text \<open>
  \<^verbatim>\<open>x != 0\<close> on a float64: false exactly for the two zeros \<open>+0\<close> and \<open>-0\<close>
  (every other bit pattern is a non-zero number, an infinity or a NaN, and a NaN is
  unequal to everything).
\<close>

definition f64_is_zero :: "float64 \<Rightarrow> bool" where
  "f64_is_zero x \<longleftrightarrow> x = 0 \<or> x = 0x8000000000000000"

text \<open>
  Three structs share the field names of \<^verbatim>\<open>tixer.Ticket\<close>: \<^verbatim>\<open>persistedTicket\<close> of the store
  adapter and \<^verbatim>\<open>updateTicket\<close> of the HTTP layer (pointer fields: \<^verbatim>\<open>nil\<close> is \<open>None\<close>) come
  first, so that the plain names \<open>ID\<close>, \<open>Title\<close>, \<open>Price\<close> are those of the ticket.
\<close>

record updateTicket =
  Title :: "string option"
  Price :: "float64 option"

record persistedTicket =
  ID :: string
  Title :: string
  Price :: float64
  DateCreated :: time
  DateUpdated :: time

record Ticket =
  ID :: TicketID
  Title :: string
  Price :: float64
  DateCreated :: time
  DateUpdated :: time

record Filter =
  Before :: TicketID
  After :: TicketID
  Limit :: int

record Metadata =
  Before :: TicketID
  After :: TicketID
  Total :: int

text \<open>The zero values \<^verbatim>\<open>tixer.Ticket{}\<close> and \<^verbatim>\<open>tixer.Metadata{}\<close>.\<close>

definition zeroTicket :: Ticket where
  "zeroTicket = \<lparr>Ticket.ID = 0, Title = [], Price = 0, DateCreated = 0, DateUpdated = 0\<rparr>"

definition zeroMetadata :: Metadata where
  "zeroMetadata = \<lparr>Metadata.Before = 0, After = 0, Total = 0\<rparr>"

text \<open>
  The ticket \<^verbatim>\<open>handleUpdateTicket\<close> builds from the path's identifier and the decoded
  body and passes to \<^verbatim>\<open>UpdateTicket\<close>: a field of the body is copied when its pointer
  is not \<^verbatim>\<open>nil\<close>, and keeps the zero value otherwise.
\<close>

definition handleUpdateTicket_tck :: "TicketID \<Rightarrow> updateTicket \<Rightarrow> Ticket" where
  "handleUpdateTicket_tck tid input =
     \<lparr>Ticket.ID = tid,
      Title = (case updateTicket.Title input of None \<Rightarrow> [] | Some x \<Rightarrow> x),
      Price = (case updateTicket.Price input of None \<Rightarrow> 0 | Some p \<Rightarrow> p),
      DateCreated = 0, DateUpdated = 0\<rparr>"

subsection \<open>The validator collaborator\<close>

text \<open>
  The \<^verbatim>\<open>Validator\<close> interface is implemented outside this repository
  (\<^verbatim>\<open>tixer-pkgs/validate\<close>): a table of error messages by key, where \<^verbatim>\<open>AddError\<close>
  keeps the first message of a key, \<^verbatim>\<open>Check\<close> adds the message when the condition is
  false, and \<^verbatim>\<open>Valid\<close> holds when the table is empty.
\<close>

type_synonym Validator = "(string \<times> string) list"

definition NewValidator :: Validator where
  "NewValidator = []"

definition AddError :: "string \<Rightarrow> string \<Rightarrow> Validator \<Rightarrow> Validator" where
  "AddError key message vld =
     (if map_of vld key = None then vld @ [(key, message)] else vld)"

definition Check :: "bool \<Rightarrow> string \<Rightarrow> string \<Rightarrow> Validator \<Rightarrow> Validator" where
  "Check ok key message vld = (if \<not> ok then AddError key message vld else vld)"

definition Valid :: "Validator \<Rightarrow> bool" where
  "Valid vld \<longleftrightarrow> vld = []"

definition ValidateTitle :: "Ticket \<Rightarrow> Validator \<Rightarrow> Validator" where
  "ValidateTitle t vld =
     Check (length (Title t) \<le> 50) ''title'' ''must not be longer than 50 characters''
       (Check (Title t \<noteq> []) ''title'' ''must be provided'' vld)"

text \<open>
  The number of characters of a UTF-8 text, the unit in which the title's limit is
  worded: every byte that is not a continuation byte \<open>10xxxxxx\<close> starts one character.
\<close>

definition utf8_continuation :: "char \<Rightarrow> bool" where
  "utf8_continuation c \<longleftrightarrow> (of_char c :: nat) div 64 = 2"

definition utf8_characters :: "string \<Rightarrow> nat" where
  "utf8_characters s = length (filter (\<lambda>c. \<not> utf8_continuation c) s)"

text \<open>
  Well-formed UTF-8, as \<^verbatim>\<open>utf8.ValidString\<close> and the wire encoding of a request decide
  it: one byte below \<open>0x80\<close>; a lead \<open>0xC2\<close> to \<open>0xDF\<close> and one continuation byte; a
  lead \<open>0xE0\<close> to \<open>0xEF\<close> and two; a lead \<open>0xF0\<close> to \<open>0xF4\<close> and three; with the second
  byte narrowed after \<open>0xE0\<close>, \<open>0xED\<close>, \<open>0xF0\<close> and \<open>0xF4\<close> (no overlong form, no
  surrogate, nothing above U+10FFFF).
\<close>

definition second_byte :: "nat \<Rightarrow> char \<Rightarrow> bool" where
  "second_byte lead c =
     (let n = (of_char c :: nat)
      in if lead = 224 then 160 \<le> n \<and> n \<le> 191
         else if lead = 237 then 128 \<le> n \<and> n \<le> 159
         else if lead = 240 then 144 \<le> n \<and> n \<le> 191
         else if lead = 244 then 128 \<le> n \<and> n \<le> 143
         else 128 \<le> n \<and> n \<le> 191)"

fun valid_utf8 :: "string \<Rightarrow> bool" where
  "valid_utf8 [] = True"
| "valid_utf8 (c # cs) =
     (let b = (of_char c :: nat)
      in if b < 128 then valid_utf8 cs
         else if 194 \<le> b \<and> b \<le> 223
         then (case cs of
                 c1 # r \<Rightarrow> utf8_continuation c1 \<and> valid_utf8 r
               | _ \<Rightarrow> False)
         else if 224 \<le> b \<and> b \<le> 239
         then (case cs of
                 c1 # c2 # r \<Rightarrow> second_byte b c1 \<and> utf8_continuation c2 \<and> valid_utf8 r
               | _ \<Rightarrow> False)
         else if 240 \<le> b \<and> b \<le> 244
         then (case cs of
                 c1 # c2 # c3 # r \<Rightarrow>
                   second_byte b c1 \<and> utf8_continuation c2 \<and> utf8_continuation c3 \<and>
                   valid_utf8 r
               | _ \<Rightarrow> False)
         else False)"

subsection \<open>Identifiers as text\<close>

text \<open>
  \<^verbatim>\<open>TicketID.String\<close> is \<^verbatim>\<open>uuid.UUID.String\<close>: 32 lower-case hexadecimal digits in
  groups of 8, 4, 4, 4 and 12, separated by \<open>-\<close>. \<^verbatim>\<open>uuid.Parse\<close> goes by the length
  of the text: 36 bytes are that form; 45 bytes are that form after the prefix
  \<^verbatim>\<open>urn:uuid:\<close> in either case; 38 bytes are that form after one byte and before one
  more (the braces, which are not looked at); 32 bytes are the 32 digits alone. In
  the form itself the four separators must be in place and the digits hexadecimal, of
  either case. \<^verbatim>\<open>uuid.MustParse\<close> panics where \<^verbatim>\<open>uuid.Parse\<close> fails.
\<close>

definition hexdigit :: "nat \<Rightarrow> char" where
  "hexdigit n = ''0123456789abcdef'' ! (n mod 16)"

definition hex32 :: "UUID \<Rightarrow> string" where
  "hex32 u = map (\<lambda>i. hexdigit (unat u div 16 ^ (31 - i) mod 16)) [0..<32]"

definition uuid_String :: "UUID \<Rightarrow> string" where
  "uuid_String u =
     (let h = hex32 u
      in take 8 h @ ''-'' @ take 4 (drop 8 h) @ ''-'' @ take 4 (drop 12 h) @ ''-'' @
         take 4 (drop 16 h) @ ''-'' @ drop 20 h)"

definition xval :: "char \<Rightarrow> nat option" where
  "xval c =
     (let n = (of_char c :: nat)
      in if 48 \<le> n \<and> n \<le> 57 then Some (n - 48)
         else if 97 \<le> n \<and> n \<le> 102 then Some (n - 87)
         else if 65 \<le> n \<and> n \<le> 70 then Some (n - 55)
         else None)"

fun xvals :: "string \<Rightarrow> nat list option" where
  "xvals [] = Some []"
| "xvals (c # cs) =
     (case xval c of
        None \<Rightarrow> None
      | Some d \<Rightarrow> (case xvals cs of None \<Rightarrow> None | Some ds \<Rightarrow> Some (d # ds)))"

definition xbytes :: "string \<Rightarrow> UUID option" where
  "xbytes s =
     (case xvals s of
        None \<Rightarrow> None
      | Some ds \<Rightarrow> Some (of_nat (foldl (\<lambda>a d. 16 * a + d) 0 ds)))"

text \<open>The hyphenated form, read from a text of at least 36 bytes.\<close>

definition parse36 :: "string \<Rightarrow> UUID option" where
  "parse36 s =
     (if s ! 8 \<noteq> CHR ''-'' \<or> s ! 13 \<noteq> CHR ''-'' \<or> s ! 18 \<noteq> CHR ''-'' \<or> s ! 23 \<noteq> CHR ''-''
      then None
      else xbytes (take 8 s @ take 4 (drop 9 s) @ take 4 (drop 14 s) @
                   take 4 (drop 19 s) @ take 12 (drop 24 s)))"

definition ascii_lower :: "char \<Rightarrow> char" where
  "ascii_lower c =
     (let n = (of_char c :: nat) in if 65 \<le> n \<and> n \<le> 90 then char_of (n + 32) else c)"

definition uuid_Parse :: "string \<Rightarrow> UUID option" where
  "uuid_Parse s =
     (if length s = 36 then parse36 s
      else if length s = 36 + 9
      then (if map ascii_lower (take 9 s) = ''urn:uuid:'' then parse36 (drop 9 s) else None)
      else if length s = 36 + 2 then parse36 (drop 1 s)
      else if length s = 32 then xbytes s
      else None)"

definition uuid_Nil :: UUID where
  "uuid_Nil = 0"

section \<open>The backing document store\<close>

text \<open>
  The contract of the Firestore client the adapter is written against. A document of
  the collection is a partial assignment of the five fields this program reads or
  writes, each of the type the program writes it with; the collection is a table from
  document names to documents, kept as a list of entries whose first entry of a name
  is the document of that name. The limits of the store on the size of a document and
  of a request are left out.
\<close>

record document =
  title :: "string option"
  price :: "float64 option"
  dateCreated :: "time option"
  dateUpdated :: "time option"
  totalTickets :: "int option"

type_synonym docs = "(string \<times> document) list"

text \<open>A document snapshot: the name (\<^verbatim>\<open>doc.Ref.ID\<close>) and the data.\<close>

type_synonym snapshot = "string \<times> document"

datatype code = NotFound | AlreadyExists | InvalidArgument | Internal

text \<open>
  Modelled from the spec: \<^verbatim>\<open>tixer.ErrTicketNotFound\<close>, declared in a file of package
  \<^verbatim>\<open>tixer\<close> that is not among the sources, is the error kind \<open>NotFound\<close> of the spec
  (the referenced ticket, or cursor ticket, does not exist): a value of its own,
  told from every other error by \<^verbatim>\<open>errors.Is\<close>.
  \<open>ErrCounterNotFound\<close> is the adapter's own variable; \<open>Status c\<close> is an error of the
  store with gRPC code \<open>c\<close>; \<open>ErrCursor\<close> is the client's refusal of a cursor document
  that lacks the field of the order; \<open>Panic\<close> is a run-time panic (of \<^verbatim>\<open>uuid.MustParse\<close>).
\<close>

datatype error =
    ErrTicketNotFound
  | ErrCounterNotFound
  | Status code
  | ErrCursor
  | Panic

text \<open>\<^verbatim>\<open>DocumentRef.Get\<close> and \<^verbatim>\<open>Transaction.Get\<close>: status \<open>NotFound\<close> when absent.\<close>

definition Get :: "docs \<Rightarrow> string \<Rightarrow> error + snapshot" where
  "Get db name =
     (case map_of db name of
        None \<Rightarrow> Inl (Status NotFound)
      | Some d \<Rightarrow> Inr (name, d))"

text \<open>
  The field updates this program issues: \<^verbatim>\<open>{Path: "dateUpdated", Value: ServerTimestamp}\<close>,
  \<^verbatim>\<open>{Path: "title", Value: s}\<close>, \<^verbatim>\<open>{Path: "price", Value: p}\<close> and
  \<^verbatim>\<open>{Path: "totalTickets", Value: Increment(n)}\<close>. An increment of a field that is
  not there sets it to the operand. An integer of the store has 64 bits: the sum of an
  increment that would leave them is the largest or the smallest such integer.
\<close>

definition sat64 :: "int \<Rightarrow> int" where
  "sat64 x =
     (if x > 2 ^ 63 - 1 then 2 ^ 63 - 1 else if x < - (2 ^ 63) then - (2 ^ 63) else x)"

datatype update =
    DateUpdatedServerTimestamp
  | TitleValue string
  | PriceValue float64
  | TotalTicketsIncrement int

fun apply_update :: "time \<Rightarrow> document \<Rightarrow> update \<Rightarrow> document" where
  "apply_update now d DateUpdatedServerTimestamp = d\<lparr>dateUpdated := Some now\<rparr>"
| "apply_update now d (TitleValue s) = d\<lparr>title := Some s\<rparr>"
| "apply_update now d (PriceValue p) = d\<lparr>price := Some p\<rparr>"
| "apply_update now d (TotalTicketsIncrement n) =
     d\<lparr>totalTickets := Some (case totalTickets d of None \<Rightarrow> n | Some v \<Rightarrow> sat64 (v + n))\<rparr>"

text \<open>
  The writes a transaction buffers. \<^verbatim>\<open>Create\<close> carries the \<^verbatim>\<open>createTicket\<close> struct
  (title and price; its \<^verbatim>\<open>dateCreated\<close> is tagged \<^verbatim>\<open>serverTimestamp\<close> and left zero, so
  the server fills it in) and fails with \<open>AlreadyExists\<close> on an existing name;
  \<^verbatim>\<open>Update\<close> fails with \<open>NotFound\<close> on a missing document; \<^verbatim>\<open>Delete\<close> of a missing
  document does nothing and is no error.
\<close>

datatype "write" =
    Create string string float64
  | Update string "update list"
  | Delete string

fun apply_write :: "time \<Rightarrow> docs \<Rightarrow> write \<Rightarrow> error + docs" where
  "apply_write now db (Create name t p) =
     (case map_of db name of
        Some d \<Rightarrow> Inl (Status AlreadyExists)
      | None \<Rightarrow>
          Inr (db @ [(name, \<lparr>title = Some t, price = Some p, dateCreated = Some now,
                             dateUpdated = None, totalTickets = None\<rparr>)]))"
| "apply_write now db (Update name us) =
     (case map_of db name of
        None \<Rightarrow> Inl (Status NotFound)
      | Some d \<Rightarrow> Inr (AList.update name (foldl (apply_update now) d us) db))"
| "apply_write now db (Delete name) = Inr (AList.delete name db)"

text \<open>The store applies the writes of a commit in order; the first failure fails it.\<close>

fun apply_writes :: "time \<Rightarrow> docs \<Rightarrow> write list \<Rightarrow> error + docs" where
  "apply_writes now db [] = Inr db"
| "apply_writes now db (w # ws) =
     (case apply_write now db w of
        Inl e \<Rightarrow> Inl e
      | Inr db' \<Rightarrow> apply_writes now db' ws)"

text \<open>
  A text sent to the store must be well-formed UTF-8: the request of a commit that
  carries another one is not encoded, the call ends with status \<open>Internal\<close> and the
  store sees nothing of it. The texts this program sends in field values are titles.
  (Document names are the texts of identifiers and the configured name of the counter,
  taken to be well-formed.)
\<close>

fun update_ok :: "update \<Rightarrow> bool" where
  "update_ok (TitleValue s) = valid_utf8 s"
| "update_ok u = True"

fun write_ok :: "write \<Rightarrow> bool" where
  "write_ok (Create name t p) = valid_utf8 t"
| "write_ok (Update name us) = list_all update_ok us"
| "write_ok (Delete name) = True"

definition commit :: "time \<Rightarrow> docs \<Rightarrow> write list \<Rightarrow> error + docs" where
  "commit now db ws =
     (if list_all write_ok ws then apply_writes now db ws else Inl (Status Internal))"

text \<open>
  \<^verbatim>\<open>RunTransaction\<close>: the body reads the collection and buffers writes, or returns an
  error; the writes are committed together at server time \<open>now\<close>, or not at all.
\<close>

definition RunTransaction ::
  "time \<Rightarrow> docs \<Rightarrow> (docs \<Rightarrow> error + write list) \<Rightarrow> error option \<times> docs" where
  "RunTransaction now db f =
     (case f db of
        Inl e \<Rightarrow> (Some e, db)
      | Inr ws \<Rightarrow>
          (case commit now db ws of
             Inl e \<Rightarrow> (Some e, db)
           | Inr db' \<Rightarrow> (None, db')))"

text \<open>
  The query \<^verbatim>\<open>OrderBy("dateCreated", Desc).Limit(n)\<close> with optional
  \<^verbatim>\<open>StartAfter(doc)\<close> and \<^verbatim>\<open>EndBefore(doc)\<close>. Only documents that have the field are
  listed; the order is by the field, then by document name, both descending; a snapshot
  cursor stands for the position of its document (field value and name), and a
  snapshot without the field cannot be a cursor. \<^verbatim>\<open>Limit(n)\<close> keeps \<open>n\<close> as a 32-bit
  integer: an \<open>n\<close> above the largest one becomes the largest one, any other \<open>n\<close> is cut
  to its low 32 bits (Go's \<^verbatim>\<open>int32(n)\<close>; Go's \<^verbatim>\<open>int\<close> has 64 bits). The store rejects a
  limit that is negative then.
\<close>

definition trunc32 :: "int \<Rightarrow> int" where
  "trunc32 i =
     (if i > 2 ^ 31 - 1 then 2 ^ 31 - 1 else (i + 2 ^ 31) mod 2 ^ 32 - 2 ^ 31)"

record query =
  limit :: int
  startAfter :: "snapshot option"
  endBefore :: "snapshot option"

definition position :: "snapshot \<Rightarrow> time \<times> string" where
  "position e = (case dateCreated (snd e) of None \<Rightarrow> 0 | Some t \<Rightarrow> t, fst e)"

definition has_dateCreated :: "snapshot \<Rightarrow> bool" where
  "has_dateCreated e \<longleftrightarrow> dateCreated (snd e) \<noteq> None"

definition ordered :: "docs \<Rightarrow> snapshot list" where
  "ordered db = rev (sort_key position (filter has_dateCreated db))"

definition cursor_ok :: "snapshot option \<Rightarrow> bool" where
  "cursor_ok c = (case c of None \<Rightarrow> True | Some e \<Rightarrow> has_dateCreated e)"

definition in_range :: "query \<Rightarrow> snapshot \<Rightarrow> bool" where
  "in_range q e \<longleftrightarrow>
     (case startAfter q of None \<Rightarrow> True | Some c \<Rightarrow> position e < position c) \<and>
     (case endBefore q of None \<Rightarrow> True | Some c \<Rightarrow> position c < position e)"

definition Documents :: "docs \<Rightarrow> query \<Rightarrow> error + snapshot list" where
  "Documents db q =
     (if \<not> cursor_ok (startAfter q) \<or> \<not> cursor_ok (endBefore q) then Inl ErrCursor
      else if limit q < 0 then Inl (Status InvalidArgument)
      else Inr (take (nat (limit q)) (filter (in_range q) (ordered db))))"

section \<open>The store adapter (package gcfirestore)\<close>

text \<open>
  The adapter's \<^verbatim>\<open>client\<close> stands for the content of its collection: every operation
  takes the documents as they are and, when it writes, returns them as they become.
  An operation that commits takes the server's time of the commit as \<open>now\<close>.
  In a transaction body \<^verbatim>\<open>tx.Create\<close>, \<^verbatim>\<open>tx.Update\<close> and \<^verbatim>\<open>tx.Delete\<close> only buffer
  their write and return no error of the store, so the body's error checks between
  them never fire; the store's verdict is the error of \<^verbatim>\<open>RunTransaction\<close>.
\<close>

record Storer =
  collection :: string
  counterDocID :: string

text \<open>\<^verbatim>\<open>doc.DataTo(&tck)\<close>: a field the document lacks keeps its zero value.\<close>

definition docToPersistedTicket :: "snapshot \<Rightarrow> persistedTicket" where
  "docToPersistedTicket doc =
     \<lparr>persistedTicket.ID = fst doc,
      Title = (case title (snd doc) of None \<Rightarrow> [] | Some s \<Rightarrow> s),
      Price = (case price (snd doc) of None \<Rightarrow> 0 | Some p \<Rightarrow> p),
      DateCreated = (case dateCreated (snd doc) of None \<Rightarrow> 0 | Some t \<Rightarrow> t),
      DateUpdated = (case dateUpdated (snd doc) of None \<Rightarrow> 0 | Some t \<Rightarrow> t)\<rparr>"

record persistedCounter =
  TotalTickets :: int

definition docToPersistedCounter :: "snapshot \<Rightarrow> persistedCounter" where
  "docToPersistedCounter doc =
     \<lparr>TotalTickets = (case totalTickets (snd doc) of None \<Rightarrow> 0 | Some n \<Rightarrow> n)\<rparr>"

definition toDomainTicket :: "persistedTicket \<Rightarrow> error + Ticket" where
  "toDomainTicket t =
     (case uuid_Parse (persistedTicket.ID t) of
        None \<Rightarrow> Inl Panic
      | Some u \<Rightarrow>
          Inr \<lparr>Ticket.ID = u, Title = persistedTicket.Title t, Price = persistedTicket.Price t,
               DateCreated = persistedTicket.DateCreated t,
               DateUpdated = persistedTicket.DateUpdated t\<rparr>)"

definition CreateTicket :: "Storer \<Rightarrow> time \<Rightarrow> docs \<Rightarrow> Ticket \<Rightarrow> error option \<times> docs" where
  "CreateTicket s now db ticket =
     (let tRef = uuid_String (Ticket.ID ticket);
          cRef = counterDocID s
      in RunTransaction now db
           (\<lambda>tx. Inr [Create tRef (Title ticket) (Price ticket),
                      Update cRef [TotalTicketsIncrement 1]]))"

definition readTicket :: "Storer \<Rightarrow> docs \<Rightarrow> TicketID \<Rightarrow> error + Ticket" where
  "readTicket s db tid =
     (case Get db (uuid_String tid) of
        Inl e \<Rightarrow> (if e = Status NotFound then Inl ErrTicketNotFound else Inl e)
      | Inr ticketDoc \<Rightarrow> toDomainTicket (docToPersistedTicket ticketDoc))"

definition ReadTicket :: "Storer \<Rightarrow> docs \<Rightarrow> TicketID \<Rightarrow> error + Ticket" where
  "ReadTicket s db tid = readTicket s db tid"

definition UpdateTicket ::
  "Storer \<Rightarrow> time \<Rightarrow> docs \<Rightarrow> Ticket \<Rightarrow> (error + Ticket) \<times> docs" where
  "UpdateTicket s now db ticket =
     (let dRef = uuid_String (Ticket.ID ticket)
      in case RunTransaction now db
                (\<lambda>tx. case Get tx dRef of
                         Inl e \<Rightarrow> (if e = Status NotFound then Inl ErrTicketNotFound else Inl e)
                       | Inr _ \<Rightarrow>
                           Inr [Update dRef
                                  ([DateUpdatedServerTimestamp] @
                                   (if Title ticket \<noteq> [] then [TitleValue (Title ticket)] else []) @
                                   (if \<not> f64_is_zero (Price ticket)
                                    then [PriceValue (Price ticket)] else []))]) of
           (Some err, db') \<Rightarrow> (Inl err, db')
         | (None, db') \<Rightarrow> (readTicket s db' (Ticket.ID ticket), db'))"

definition DeleteTicket :: "Storer \<Rightarrow> time \<Rightarrow> docs \<Rightarrow> TicketID \<Rightarrow> error option \<times> docs" where
  "DeleteTicket s now db tid =
     (let tRef = uuid_String tid;
          cRef = counterDocID s
      in RunTransaction now db
           (\<lambda>tx. Inr [Delete tRef, Update cRef [TotalTicketsIncrement (- 1)]]))"

text \<open>The loop of \<^verbatim>\<open>ReadTickets\<close> over the documents of the page.\<close>

fun toTickets :: "snapshot list \<Rightarrow> error + Ticket list" where
  "toTickets [] = Inr []"
| "toTickets (doc # rest) =
     (case toDomainTicket (docToPersistedTicket doc) of
        Inl e \<Rightarrow> Inl e
      | Inr t \<Rightarrow> (case toTickets rest of Inl e \<Rightarrow> Inl e | Inr tt \<Rightarrow> Inr (t # tt)))"

text \<open>
  The block \<^verbatim>\<open>ReadTickets\<close> runs for each of its two cursors: an identifier whose text
  is that of \<^verbatim>\<open>uuid.Nil\<close> is no cursor; any other is resolved to its document.
\<close>

definition cursorDoc :: "docs \<Rightarrow> TicketID \<Rightarrow> error + snapshot option" where
  "cursorDoc db tid =
     (if uuid_String tid \<noteq> uuid_String uuid_Nil
      then (case Get db (uuid_String tid) of
              Inl e \<Rightarrow> (if e = Status NotFound then Inl ErrTicketNotFound else Inl e)
            | Inr doc \<Rightarrow> Inr (Some doc))
      else Inr None)"

definition ReadTickets ::
  "Storer \<Rightarrow> docs \<Rightarrow> Filter \<Rightarrow> Ticket list \<times> Metadata \<times> error option" where
  "ReadTickets s db flt =
     (case cursorDoc db (Filter.After flt) of
        Inl e \<Rightarrow> ([], zeroMetadata, Some e)
      | Inr afterDoc \<Rightarrow>
     (case cursorDoc db (Filter.Before flt) of
        Inl e \<Rightarrow> ([], zeroMetadata, Some e)
      | Inr beforeDoc \<Rightarrow>
     (case Documents db \<lparr>limit = trunc32 (Limit flt), startAfter = afterDoc,
                         endBefore = beforeDoc\<rparr> of
        Inl e \<Rightarrow> ([], zeroMetadata, Some e)
      | Inr docs \<Rightarrow>
     (case toTickets docs of
        Inl e \<Rightarrow> ([], zeroMetadata, Some e)
      | Inr tt \<Rightarrow>
     (case Get db (counterDocID s) of
        Inl e \<Rightarrow>
          ([], zeroMetadata, Some (if e = Status NotFound then ErrCounterNotFound else e))
      | Inr counterDoc \<Rightarrow>
          (let cnt = docToPersistedCounter counterDoc;
               before = (if length tt > 0 then Ticket.ID (tt ! 0) else 0);
               after = (if length tt > 0 then Ticket.ID (tt ! (length tt - 1)) else 0)
           in (tt, \<lparr>Metadata.Before = before, After = after, Total = TotalTickets cnt\<rparr>,
               None)))))))"

section \<open>Notions used in the statements\<close>

text \<open>The document \<^verbatim>\<open>CreateTicket\<close> stores for a ticket at server time \<open>now\<close>.\<close>

definition newDoc :: "time \<Rightarrow> Ticket \<Rightarrow> document" where
  "newDoc now t =
     \<lparr>title = Some (Title t), price = Some (Price t), dateCreated = Some now,
      dateUpdated = None, totalTickets = None\<rparr>"

text \<open>The counter document after \<^verbatim>\<open>Increment(n)\<close> of its \<^verbatim>\<open>totalTickets\<close>.\<close>

definition bump :: "int \<Rightarrow> document \<Rightarrow> document" where
  "bump n c =
     c\<lparr>totalTickets := Some (case totalTickets c of None \<Rightarrow> n | Some v \<Rightarrow> sat64 (v + n))\<rparr>"

text \<open>The field updates \<^verbatim>\<open>UpdateTicket\<close> sends for an input ticket.\<close>

definition updates :: "Ticket \<Rightarrow> update list" where
  "updates t =
     [DateUpdatedServerTimestamp] @
     (if Title t \<noteq> [] then [TitleValue (Title t)] else []) @
     (if \<not> f64_is_zero (Price t) then [PriceValue (Price t)] else [])"

text \<open>The ticket documents currently persisted: every document but the counter.\<close>

definition ticketDocs :: "Storer \<Rightarrow> docs \<Rightarrow> snapshot list" where
  "ticketDocs s db = filter (\<lambda>e. fst e \<noteq> counterDocID s) db"

text \<open>
  The configuration of the command's defaults, and a counter document holding \<open>n\<close>:
  a collection with only the counter at \<open>0\<close> is the provisioned, empty collection.
\<close>

definition defaultStorer :: Storer where
  "defaultStorer = \<lparr>collection = ''tickets'', counterDocID = ''--counter--''\<rparr>"

definition counterDoc :: "int \<Rightarrow> document" where
  "counterDoc n =
     \<lparr>title = None, price = None, dateCreated = None, dateUpdated = None,
      totalTickets = Some n\<rparr>"

text \<open>The total \<^verbatim>\<open>ReadTickets\<close> would report: the counter document's \<^verbatim>\<open>totalTickets\<close>.\<close>

definition counterValue :: "Storer \<Rightarrow> docs \<Rightarrow> int option" where
  "counterValue s db =
     (case Get db (counterDocID s) of
        Inl e \<Rightarrow> None
      | Inr doc \<Rightarrow> Some (TotalTickets (docToPersistedCounter doc)))"

text \<open>
  A sample ticket (price 10.0) and the collections before and after its creation at
  server time 10.
\<close>

definition ticketA :: Ticket where
  "ticketA =
     \<lparr>Ticket.ID = 1, Title = ''a'', Price = 0x4024000000000000, DateCreated = 0,
      DateUpdated = 0\<rparr>"

definition collection0 :: docs where
  "collection0 = [(''--counter--'', counterDoc 0)]"

definition collectionA :: docs where
  "collectionA = [(''--counter--'', counterDoc 1), (uuid_String 1, newDoc 10 ticketA)]"

text \<open>The sample collection after an update at server time 20, with the given title.\<close>

definition collectionU :: "string \<Rightarrow> docs" where
  "collectionU x =
     [(''--counter--'', counterDoc 1),
      (uuid_String 1,
       \<lparr>title = Some x, price = Some 0x4024000000000000, dateCreated = Some 10,
        dateUpdated = Some 20, totalTickets = None\<rparr>)]"

text \<open>
  A document name is a ticket's when it is the text \<^verbatim>\<open>String\<close> gives for an identifier
  other than \<^verbatim>\<open>uuid.Nil\<close>, as every name \<^verbatim>\<open>CreateTicket\<close> writes for an identifier from
  \<^verbatim>\<open>NewTicketID\<close> is.
\<close>

definition ticketName :: "string \<Rightarrow> bool" where
  "ticketName n \<longleftrightarrow>
     (case uuid_Parse n of None \<Rightarrow> False | Some u \<Rightarrow> u \<noteq> uuid_Nil \<and> uuid_String u = n)"

text \<open>
  A collection of tickets: names are unique, the counter document (if there) has no
  \<open>dateCreated\<close>, and every other document has one and a ticket's name.
\<close>

definition ticketStore :: "Storer \<Rightarrow> docs \<Rightarrow> bool" where
  "ticketStore s db \<longleftrightarrow>
     distinct (map fst db) \<and>
     (\<forall>e \<in> set db. if fst e = counterDocID s then dateCreated (snd e) = None
                     else dateCreated (snd e) \<noteq> None \<and> ticketName (fst e))"

text \<open>The ticket \<^verbatim>\<open>ReadTickets\<close> and \<^verbatim>\<open>readTicket\<close> make of a document.\<close>

definition ticketOf :: "snapshot \<Rightarrow> Ticket" where
  "ticketOf e =
     (case toDomainTicket (docToPersistedTicket e) of Inl x \<Rightarrow> zeroTicket | Inr t \<Rightarrow> t)"

text \<open>A ticket as it reads back after its creation at server time \<open>now\<close>.\<close>

definition stored :: "time \<Rightarrow> Ticket \<Rightarrow> Ticket" where
  "stored now t = t\<lparr>DateCreated := now, DateUpdated := 0\<rparr>"

text \<open>
  A caller that lists the collection page by page: it asks for the first page, then
  passes the \<open>After\<close> of each page's metadata as the cursor of the next call, until a
  page comes back empty. The first argument bounds the number of calls; \<open>None\<close> means
  the bound was reached.
\<close>

primrec traverse :: "nat \<Rightarrow> Storer \<Rightarrow> docs \<Rightarrow> int \<Rightarrow> TicketID \<Rightarrow> (error + Ticket list) option" where
  "traverse 0 s db n after = None"
| "traverse (Suc k) s db n after =
     (case ReadTickets s db \<lparr>Filter.Before = uuid_Nil, After = after, Limit = n\<rparr> of
        (tt, m, Some e) \<Rightarrow> Some (Inl e)
      | (tt, m, None) \<Rightarrow>
          if tt = [] then Some (Inr [])
          else (case traverse k s db n (Metadata.After m) of
                  None \<Rightarrow> None
                | Some (Inl e) \<Rightarrow> Some (Inl e)
                | Some (Inr rest) \<Rightarrow> Some (Inr (tt @ rest))))"

text \<open>
  The documents of one page: the range between the cursors, cut at the limit the
  query holds.
\<close>

definition page :: "docs \<Rightarrow> int \<Rightarrow> snapshot option \<Rightarrow> snapshot option \<Rightarrow> snapshot list" where
  "page db n a b =
     take (nat n) (filter (in_range \<lparr>limit = n, startAfter = a, endBefore = b\<rparr>) (ordered db))"

text \<open>
  The collection after tickets \<open>a\<close>, \<open>b\<close>, \<open>c\<close> were created, in this order at the
  server times \<open>ta\<close>, \<open>tb\<close>, \<open>tc\<close>, on the provisioned empty collection.
\<close>

definition collection3 :: "Storer \<Rightarrow> time \<Rightarrow> Ticket \<Rightarrow> time \<Rightarrow> Ticket \<Rightarrow> time \<Rightarrow> Ticket \<Rightarrow> docs" where
  "collection3 s ta a tb b tc c =
     [(counterDocID s, counterDoc 3),
      (uuid_String (Ticket.ID a), newDoc ta a),
      (uuid_String (Ticket.ID b), newDoc tb b),
      (uuid_String (Ticket.ID c), newDoc tc c)]"

text \<open>Two more sample tickets (prices 20.0 and 30.0).\<close>

definition ticketB :: Ticket where
  "ticketB =
     \<lparr>Ticket.ID = 2, Title = ''b'', Price = 0x4034000000000000, DateCreated = 0,
      DateUpdated = 0\<rparr>"

definition ticketC :: Ticket where
  "ticketC =
     \<lparr>Ticket.ID = 3, Title = ''c'', Price = 0x403E000000000000, DateCreated = 0,
      DateUpdated = 0\<rparr>"

text \<open>A collection with a ticket and no counter document.\<close>

definition collectionOrphan :: docs where
  "collectionOrphan = [(uuid_String 1, newDoc 10 ticketA)]"

text \<open>
  A run of creations and deletions, each at its server time: the collection it leaves,
  and the number of creations that succeeded minus the number of deletions that
  succeeded.
\<close>

datatype operation = DoCreate time Ticket | DoDelete time TicketID

fun run :: "Storer \<Rightarrow> docs \<Rightarrow> operation list \<Rightarrow> docs \<times> int" where
  "run s db [] = (db, 0)"
| "run s db (DoCreate now t # ops) =
     (case CreateTicket s now db t of
        (None, db') \<Rightarrow> (case run s db' ops of (d, k) \<Rightarrow> (d, k + 1))
      | (Some e, db') \<Rightarrow> run s db' ops)"
| "run s db (DoDelete now tid # ops) =
     (case DeleteTicket s now db tid of
        (None, db') \<Rightarrow> (case run s db' ops of (d, k) \<Rightarrow> (d, k - 1))
      | (Some e, db') \<Rightarrow> run s db' ops)"

section \<open>Identifiers as text: round trip\<close>

lemma xval_hexdigit: "n < 16 \<Longrightarrow> xval (hexdigit n) = Some n"
proof -
  assume "n < 16"
  then have "n \<in> set [0..<16]" by simp
  then show ?thesis
    unfolding upt_conv_Cons
    by (simp add: upt_rec xval_def hexdigit_def) (elim disjE; simp)
qed

lemma xvals_map: "\<forall>n \<in> set ns. n < 16 \<Longrightarrow> xvals (map hexdigit ns) = Some ns"
  by (induction ns) (simp_all add: xval_hexdigit)

lemma length_hex32: "length (hex32 u) = 32"
  by (simp add: hex32_def)

lemma foldl_digits:
  "foldl (\<lambda>a d. 16 * a + d) (a::nat) (map (\<lambda>i. n div 16 ^ (k - Suc i) mod 16) [0..<k])
     = a * 16 ^ k + n mod 16 ^ k"
proof (induction k arbitrary: n)
  case 0
  then show ?case by simp
next
  case (Suc k)
  have eq: "map (\<lambda>i. n div 16 ^ (Suc k - Suc i) mod 16) [0..<k]
      = map (\<lambda>i. (n div 16) div 16 ^ (k - Suc i) mod 16) [0..<k]"
  proof (rule map_cong[OF refl])
    fix i assume "i \<in> set [0..<k]"
    then have "i < k" by simp
    then have "(16::nat) ^ (k - i) = 16 * 16 ^ (k - Suc i)"
      by (metis Suc_diff_Suc power_Suc)
    then show "n div 16 ^ (Suc k - Suc i) mod 16 = n div 16 div 16 ^ (k - Suc i) mod 16"
      by (simp add: div_mult2_eq)
  qed
  have m: "n mod (16 * 16 ^ k) = 16 * (n div 16 mod 16 ^ k) + n mod 16"
    by (simp add: mod_mult2_eq)
  have "[0..<Suc k] = [0..<k] @ [k]" by simp
  then have "foldl (\<lambda>a d. 16 * a + d) a (map (\<lambda>i. n div 16 ^ (Suc k - Suc i) mod 16) [0..<Suc k])
     = 16 * foldl (\<lambda>a d. 16 * a + d) a (map (\<lambda>i. n div 16 ^ (Suc k - Suc i) mod 16) [0..<k])
       + n mod 16"
    by simp
  also have "\<dots> = 16 * (a * 16 ^ k + (n div 16) mod 16 ^ k) + n mod 16"
    unfolding eq using Suc.IH[of "n div 16"] by simp
  also have "\<dots> = a * 16 ^ Suc k + n mod 16 ^ Suc k"
    unfolding power_Suc m by (simp add: algebra_simps)
  finally show ?case .
qed

lemma digits_value:
  "foldl (\<lambda>a d. 16 * a + d) 0 (map (\<lambda>i. unat (u::UUID) div 16 ^ (31 - i) mod 16) [0..<32])
     = unat u"
proof -
  have "unat u < 2 ^ 128" using unsigned_less[of u] by simp
  moreover have "(2::nat) ^ 128 = 16 ^ 32" by simp
  ultimately have lt: "unat u < 16 ^ 32" by metis
  have "foldl (\<lambda>a d. 16 * a + d) 0 (map (\<lambda>i. unat u div 16 ^ (32 - Suc i) mod 16) [0..<32])
      = 0 * 16 ^ 32 + unat u mod 16 ^ 32"
    by (rule foldl_digits)
  moreover have "(\<lambda>i. unat u div 16 ^ (32 - Suc i) mod 16) = (\<lambda>i. unat u div 16 ^ (31 - i) mod 16)"
    by (rule ext) simp
  ultimately show ?thesis using lt by (simp only: mod_less mult_0 add_0)
qed

lemma hex_parts:
  assumes "length h = 32"
  defines "s \<equiv> take 8 h @ ''-'' @ take 4 (drop 8 h) @ ''-'' @ take 4 (drop 12 h) @ ''-'' @
         take 4 (drop 16 h) @ ''-'' @ drop 20 h"
  shows "length s = 36" "s ! 8 = CHR ''-''" "s ! 13 = CHR ''-''" "s ! 18 = CHR ''-''"
        "s ! 23 = CHR ''-''"
        "take 8 s @ take 4 (drop 9 s) @ take 4 (drop 14 s) @ take 4 (drop 19 s) @
           take 12 (drop 24 s) = h"
proof -
  define a where "a = take 8 h"
  define b where "b = take 4 (drop 8 h)"
  define c where "c = take 4 (drop 12 h)"
  define d where "d = take 4 (drop 16 h)"
  define e where "e = drop 20 h"
  have l: "length a = 8" "length b = 4" "length c = 4" "length d = 4" "length e = 12"
    using assms(1) by (simp_all add: a_def b_def c_def d_def e_def)
  have 0: "h = a @ drop 8 h" by (simp add: a_def)
  have 1: "drop 8 h = b @ drop 12 h"
    using append_take_drop_id[of 4 "drop 8 h"] by (simp add: b_def)
  have 2: "drop 12 h = c @ drop 16 h"
    using append_take_drop_id[of 4 "drop 12 h"] by (simp add: c_def)
  have 3: "drop 16 h = d @ e"
    using append_take_drop_id[of 4 "drop 16 h"] by (simp add: d_def e_def)
  have h: "h = a @ b @ c @ d @ e"
    using 0 by (simp only: 1 2 3)
  have s: "s = a @ ''-'' @ b @ ''-'' @ c @ ''-'' @ d @ ''-'' @ e"
    by (simp only: s_def a_def b_def c_def d_def e_def)
  show "length s = 36" by (simp add: s l)
  show "s ! 8 = CHR ''-''" by (simp add: s l nth_append)
  show "s ! 13 = CHR ''-''" by (simp add: s l nth_append)
  show "s ! 18 = CHR ''-''" by (simp add: s l nth_append)
  show "s ! 23 = CHR ''-''" by (simp add: s l nth_append)
  show "take 8 s @ take 4 (drop 9 s) @ take 4 (drop 14 s) @ take 4 (drop 19 s) @
          take 12 (drop 24 s) = h"
    by (simp add: s l h)
qed

lemma xvals_hex32:
  "xvals (hex32 u) = Some (map (\<lambda>i. unat u div 16 ^ (31 - i) mod 16) [0..<32])"
proof -
  have "hex32 u = map hexdigit (map (\<lambda>i. unat u div 16 ^ (31 - i) mod 16) [0..<32])"
    by (simp add: hex32_def)
  moreover have "\<forall>n \<in> set (map (\<lambda>i. unat u div 16 ^ (31 - i) mod 16) [0..<32]). n < 16"
    by simp
  ultimately show ?thesis using xvals_map by metis
qed

lemma uuid_Parse_String: "uuid_Parse (uuid_String u) = Some u"
proof -
  note p = hex_parts[OF length_hex32[of u]]
  have "uuid_Parse (uuid_String u) = Some (of_nat (foldl (\<lambda>a d. 16 * a + d) 0
          (map (\<lambda>i. unat u div 16 ^ (31 - i) mod 16) [0..<32])))"
    unfolding uuid_Parse_def parse36_def xbytes_def uuid_String_def Let_def
    by (simp only: p xvals_hex32) simp
  then show ?thesis by (simp only: digits_value) simp
qed

lemma uuid_String_inj: "uuid_String a = uuid_String b \<longleftrightarrow> a = b"
  by (metis uuid_Parse_String option.inject)

lemma uuid_String_0: "uuid_String 0 = ''00000000-0000-0000-0000-000000000000''"
  by (simp add: uuid_String_def hex32_def hexdigit_def upt_conv_Cons)

lemma uuid_String_1: "uuid_String 1 = ''00000000-0000-0000-0000-000000000001''"
  by (simp add: uuid_String_def hex32_def hexdigit_def upt_conv_Cons)

lemma uuid_Parse_1: "uuid_Parse ''00000000-0000-0000-0000-000000000001'' = Some 1"
  using uuid_Parse_String[of 1] by (simp only: uuid_String_1)

section \<open>Bounded integers and well-formed texts\<close>

lemma trunc32_nonneg: "0 \<le> i \<Longrightarrow> trunc32 i = min i (2 ^ 31 - 1)"
  by (simp add: trunc32_def min_def)

lemma trunc32_bounds: "0 \<le> i \<Longrightarrow> 0 \<le> trunc32 i \<and> trunc32 i \<le> i"
  by (simp add: trunc32_nonneg)

lemma trunc32_pos: "0 < i \<Longrightarrow> 0 < trunc32 i"
  by (simp add: trunc32_nonneg)

lemma trunc32_2: "trunc32 2 = 2"
  by (simp add: trunc32_def)

lemma trunc32_10: "trunc32 10 = 10"
  by (simp add: trunc32_def)

lemma sat64_id: "- (2 ^ 63) \<le> x \<Longrightarrow> x \<le> 2 ^ 63 - 1 \<Longrightarrow> sat64 x = x"
  by (simp add: sat64_def)

lemma valid_utf8_samples: "valid_utf8 ''a''" "valid_utf8 ''b''" "valid_utf8 ''c''" "valid_utf8 []"
  by simp_all

section \<open>Title validation\<close>

lemma ValidateTitle_bytes:
  "Valid (ValidateTitle t NewValidator) \<longleftrightarrow> 1 \<le> length (Title t) \<and> length (Title t) \<le> 50"
  by (cases "Title t")
     (auto simp add: ValidateTitle_def Check_def AddError_def NewValidator_def Valid_def)

lemma length_two_byte: "length (concat (replicate n [a, b])) = 2 * n"
  by (induction n) simp_all

lemma characters_two_byte:
  "utf8_characters (concat (replicate n [CHR 0xC3, CHR 0xA9])) = n"
  by (induction n) (simp_all add: utf8_characters_def utf8_continuation_def)

text \<open>
  C9. The claim: \<^verbatim>\<open>ValidateTitle\<close> fails exactly when the title is empty or longer than
  50 characters, so that a title of 1 to 50 characters passes even when its characters
  take several bytes. The code measures \<^verbatim>\<open>len(t.Title)\<close>, the number of bytes: the
  title of 26 letters U+00E9 (two bytes each in UTF-8, 52 bytes) has 26 characters and
  is rejected.
\<close>

theorem ValidateTitle_rejects_26_characters:
  "utf8_characters (concat (replicate 26 [CHR 0xC3, CHR 0xA9])) = 26 \<and>
   \<not> Valid (ValidateTitle
              \<lparr>Ticket.ID = 1, Title = concat (replicate 26 [CHR 0xC3, CHR 0xA9]),
               Price = 0x4024000000000000, DateCreated = 0, DateUpdated = 0\<rparr>
              NewValidator)"
  by (simp add: characters_two_byte ValidateTitle_def Check_def AddError_def NewValidator_def
      Valid_def length_two_byte)

section \<open>The store operations on the table\<close>

lemma map_of_snoc:
  "map_of (db @ [(k, v)]) k' =
     (case map_of db k' of None \<Rightarrow> (if k' = k then Some v else None) | Some x \<Rightarrow> Some x)"
  by (simp add: map_add_def split: option.splits)




lemma CreateTicket_ok:
  "valid_utf8 (Title t) \<Longrightarrow>
   map_of db (uuid_String (Ticket.ID t)) = None \<Longrightarrow> map_of db (counterDocID s) = Some c \<Longrightarrow>
   CreateTicket s now db t =
     (None, AList.update (counterDocID s) (bump 1 c)
              (db @ [(uuid_String (Ticket.ID t), newDoc now t)]))"
proof -
  assume v: "valid_utf8 (Title t)"
  assume a: "map_of db (uuid_String (Ticket.ID t)) = None" "map_of db (counterDocID s) = Some c"
  then have "uuid_String (Ticket.ID t) \<noteq> counterDocID s" by auto
  with a v show ?thesis
    by (simp add: CreateTicket_def RunTransaction_def commit_def Let_def map_of_snoc newDoc_def bump_def
        del: map_of_append)
qed

lemma DeleteTicket_ok:
  "map_of db (counterDocID s) = Some c \<Longrightarrow> uuid_String tid \<noteq> counterDocID s \<Longrightarrow>
   DeleteTicket s now db tid =
     (None, AList.update (counterDocID s) (bump (- 1) c) (AList.delete (uuid_String tid) db))"
  by (simp add: DeleteTicket_def RunTransaction_def commit_def Let_def delete_conv' bump_def)

lemma DeleteTicket_no_counter:
  "map_of db (counterDocID s) = None \<Longrightarrow>
   DeleteTicket s now db tid = (Some (Status NotFound), db)"
  by (simp add: DeleteTicket_def RunTransaction_def commit_def Let_def delete_conv')

lemma UpdateTicket_missing:
  "map_of db (uuid_String (Ticket.ID t)) = None \<Longrightarrow>
   UpdateTicket s now db t = (Inl ErrTicketNotFound, db)"
  by (simp add: UpdateTicket_def RunTransaction_def commit_def Let_def Get_def)

lemma UpdateTicket_invalid:
  "map_of db (uuid_String (Ticket.ID t)) = Some d \<Longrightarrow> \<not> valid_utf8 (Title t) \<Longrightarrow>
   UpdateTicket s now db t = (Inl (Status Internal), db)"
  by (cases "Title t")
     (simp_all add: UpdateTicket_def RunTransaction_def commit_def Let_def Get_def)

lemma UpdateTicket_ok:
  "map_of db (uuid_String (Ticket.ID t)) = Some d \<Longrightarrow> valid_utf8 (Title t) \<Longrightarrow>
   UpdateTicket s now db t =
     (let db' = AList.update (uuid_String (Ticket.ID t))
                  (foldl (apply_update now) d (updates t)) db
      in (readTicket s db' (Ticket.ID t), db'))"
  by (simp add: UpdateTicket_def RunTransaction_def commit_def Let_def Get_def updates_def)

lemma ReadTickets_only_counter:
  "ReadTickets defaultStorer [(''--counter--'', counterDoc n)]
     \<lparr>Filter.Before = 0, After = 0, Limit = 10\<rparr>
   = ([], \<lparr>Metadata.Before = 0, After = 0, Total = n\<rparr>, None)"
  by (simp add: ReadTickets_def cursorDoc_def uuid_Nil_def Documents_def cursor_ok_def
      ordered_def has_dateCreated_def Get_def defaultStorer_def counterDoc_def
      docToPersistedCounter_def trunc32_10)

section \<open>Deleting a ticket that does not exist\<close>

text \<open>
  C2. The claim: \<^verbatim>\<open>UpdateTicket\<close> and \<^verbatim>\<open>DeleteTicket\<close> on an identifier that names no
  ticket return the not-found error and leave the store, the counter included, as it
  was. \<^verbatim>\<open>UpdateTicket\<close> does (lemma \<open>UpdateTicket_missing\<close>); \<^verbatim>\<open>DeleteTicket\<close> never reads
  the ticket, the store's delete of a missing document is no error, and the decrement
  is committed: on the provisioned, empty collection the deletion of ticket \<open>1\<close>
  succeeds and leaves the counter at \<open>-1\<close>.
\<close>

theorem DeleteTicket_missing_succeeds:
  "map_of [(''--counter--'', counterDoc 0)] (uuid_String 1) = None \<and>
   DeleteTicket defaultStorer 5 [(''--counter--'', counterDoc 0)] 1
     = (None, [(''--counter--'', counterDoc (- 1))])"
  by (simp add: DeleteTicket_def RunTransaction_def commit_def uuid_String_1 defaultStorer_def
      counterDoc_def sat64_def)

lemma CreateTicket_sample:
  "CreateTicket defaultStorer 10 collection0 ticketA = (None, collectionA)"
  by (simp add: CreateTicket_def RunTransaction_def commit_def uuid_String_1 defaultStorer_def
      counterDoc_def ticketA_def newDoc_def collection0_def collectionA_def sat64_def)

lemma DeleteTicket_sample:
  "DeleteTicket defaultStorer 20 collectionA 1 = (None, collection0)"
  by (simp add: DeleteTicket_def RunTransaction_def commit_def uuid_String_1 defaultStorer_def
      counterDoc_def collection0_def collectionA_def sat64_def)

text \<open>
  C1. The claim: from the empty collection, after any sequence of successful creations
  and deletions the reported total equals the number of ticket documents persisted,
  that is, the successful creations minus the successful deletions.
  On the provisioned, empty collection: a ticket is created, deleted, and deleted
  again. All three calls succeed; no ticket document is left and the total reported
  is \<open>-1\<close>, which is one creation minus two deletions and not the number of documents.
\<close>

theorem second_delete_breaks_total:
  "CreateTicket defaultStorer 10 collection0 ticketA = (None, collectionA) \<and>
   DeleteTicket defaultStorer 20 collectionA 1 = (None, collection0) \<and>
   DeleteTicket defaultStorer 30 collection0 1 = (None, [(''--counter--'', counterDoc (- 1))]) \<and>
   ReadTickets defaultStorer [(''--counter--'', counterDoc (- 1))]
       \<lparr>Filter.Before = 0, After = 0, Limit = 10\<rparr>
     = ([], \<lparr>Metadata.Before = 0, After = 0, Total = - 1\<rparr>, None) \<and>
   length (ticketDocs defaultStorer [(''--counter--'', counterDoc (- 1))]) = 0"
proof -
  have d2: "DeleteTicket defaultStorer 30 collection0 1
     = (None, [(''--counter--'', counterDoc (- 1))])"
    by (simp add: DeleteTicket_def RunTransaction_def commit_def uuid_String_1 defaultStorer_def
        counterDoc_def collection0_def sat64_def)
  have t: "length (ticketDocs defaultStorer [(''--counter--'', counterDoc (- 1))]) = 0"
    by (simp add: ticketDocs_def defaultStorer_def)
  show ?thesis
    using CreateTicket_sample DeleteTicket_sample d2 t ReadTickets_only_counter[of "- 1"]
    by simp
qed

section \<open>Creation\<close>



lemma counterValue_collectionA: "counterValue defaultStorer collectionA = Some 1"
  by (simp add: counterValue_def Get_def defaultStorer_def collectionA_def counterDoc_def
      docToPersistedCounter_def)

lemma map_of_collectionA: "map_of collectionA (uuid_String 1) = Some (newDoc 10 ticketA)"
  by (simp add: collectionA_def uuid_String_1)



text \<open>
  C7. After a successful creation, reading the ticket by its identifier gives the
  title and the price that were passed, the server's time of the creation as
  \<open>DateCreated\<close>, and the zero time as \<open>DateUpdated\<close>.
\<close>

theorem create_read_round_trip:
  assumes "CreateTicket s now db t = (None, db')"
  shows "ReadTicket s db' (Ticket.ID t) =
           Inr \<lparr>Ticket.ID = Ticket.ID t, Title = Title t, Price = Price t,
                DateCreated = now, DateUpdated = 0\<rparr>"
  using assms
  by (auto simp add: CreateTicket_def RunTransaction_def commit_def Let_def ReadTicket_def
      readTicket_def Get_def update_conv' map_of_snoc toDomainTicket_def
      docToPersistedTicket_def uuid_Parse_String
      simp del: map_of_append split: option.splits sum.splits if_splits)

theorem create_read_round_trip_witness:
  "CreateTicket defaultStorer 10 collection0 ticketA = (None, collectionA) \<and>
   ReadTicket defaultStorer collectionA 1 =
     Inr \<lparr>Ticket.ID = 1, Title = ''a'', Price = 0x4024000000000000,
          DateCreated = 10, DateUpdated = 0\<rparr>"
  using CreateTicket_sample create_read_round_trip[OF CreateTicket_sample]
  by (simp add: ticketA_def)

section \<open>Update\<close>

lemma foldl_updates_fields:
  "title (foldl (apply_update now) d (updates t)) =
     (if Title t = [] then title d else Some (Title t))"
  "price (foldl (apply_update now) d (updates t)) =
     (if f64_is_zero (Price t) then price d else Some (Price t))"
  "dateCreated (foldl (apply_update now) d (updates t)) = dateCreated d"
  "dateUpdated (foldl (apply_update now) d (updates t)) = Some now"
  "totalTickets (foldl (apply_update now) d (updates t)) = totalTickets d"
  by (simp_all add: updates_def)

lemma readTicket_present:
  "map_of db (uuid_String tid) = Some d \<Longrightarrow>
   readTicket s db tid =
     Inr \<lparr>Ticket.ID = tid,
          Title = (case title d of None \<Rightarrow> [] | Some x \<Rightarrow> x),
          Price = (case price d of None \<Rightarrow> 0 | Some p \<Rightarrow> p),
          DateCreated = (case dateCreated d of None \<Rightarrow> 0 | Some x \<Rightarrow> x),
          DateUpdated = (case dateUpdated d of None \<Rightarrow> 0 | Some x \<Rightarrow> x)\<rparr>"
  by (simp add: readTicket_def Get_def toDomainTicket_def docToPersistedTicket_def
      uuid_Parse_String)

lemma UpdateTicket_sample_title:
  "UpdateTicket defaultStorer 20 collectionA
     (handleUpdateTicket_tck 1 \<lparr>updateTicket.Title = Some ''b'', Price = None\<rparr>)
   = (Inr \<lparr>Ticket.ID = 1, Title = ''b'', Price = 0x4024000000000000, DateCreated = 10,
           DateUpdated = 20\<rparr>, collectionU ''b'')"
  by (simp add: UpdateTicket_def RunTransaction_def commit_def Get_def readTicket_def toDomainTicket_def
      docToPersistedTicket_def uuid_Parse_1 handleUpdateTicket_tck_def f64_is_zero_def
      collectionA_def collectionU_def newDoc_def ticketA_def uuid_String_1 Let_def)

lemma UpdateTicket_sample_zero:
  "UpdateTicket defaultStorer 20 collectionA
     (handleUpdateTicket_tck 1 \<lparr>updateTicket.Title = Some [], Price = Some 0\<rparr>)
   = (Inr \<lparr>Ticket.ID = 1, Title = ''a'', Price = 0x4024000000000000, DateCreated = 10,
           DateUpdated = 20\<rparr>, collectionU ''a'')"
  by (simp add: UpdateTicket_def RunTransaction_def commit_def Get_def readTicket_def toDomainTicket_def
      docToPersistedTicket_def uuid_Parse_1 handleUpdateTicket_tck_def f64_is_zero_def
      collectionA_def collectionU_def newDoc_def ticketA_def uuid_String_1 Let_def)

text \<open>
  C5. An update of an existing ticket writes the fields it was given and no other.
  Whatever the call returns: with an empty title in the input the stored title stays,
  with a zero price the stored price stays, and the creation time, the total and every
  other document stay as they were. With a title that is well-formed UTF-8 (the empty
  one is) the call succeeds, and a title or price that is given is stored; with any
  other title the call fails with status \<open>Internal\<close> and nothing is written.
\<close>

theorem UpdateTicket_partial:
  assumes ex: "map_of db (uuid_String (Ticket.ID t)) = Some d"
  shows "(\<exists>r db' d'.
           UpdateTicket s now db t = (r, db') \<and>
           map_of db' (uuid_String (Ticket.ID t)) = Some d' \<and>
           (Title t = [] \<longrightarrow> title d' = title d) \<and>
           (f64_is_zero (Price t) \<longrightarrow> price d' = price d) \<and>
           dateCreated d' = dateCreated d \<and>
           totalTickets d' = totalTickets d \<and>
           (\<forall>n. n \<noteq> uuid_String (Ticket.ID t) \<longrightarrow> map_of db' n = map_of db n)) \<and>
         (valid_utf8 (Title t) \<longrightarrow>
           (\<exists>t' db' d'.
             UpdateTicket s now db t = (Inr t', db') \<and>
             map_of db' (uuid_String (Ticket.ID t)) = Some d' \<and>
             (Title t = [] \<longrightarrow> title d' = title d) \<and>
             (Title t \<noteq> [] \<longrightarrow> title d' = Some (Title t)) \<and>
             (f64_is_zero (Price t) \<longrightarrow> price d' = price d) \<and>
             (\<not> f64_is_zero (Price t) \<longrightarrow> price d' = Some (Price t)) \<and>
             dateCreated d' = dateCreated d \<and>
             totalTickets d' = totalTickets d \<and>
             (\<forall>n. n \<noteq> uuid_String (Ticket.ID t) \<longrightarrow> map_of db' n = map_of db n))) \<and>
         (\<not> valid_utf8 (Title t) \<longrightarrow> UpdateTicket s now db t = (Inl (Status Internal), db))"
proof (cases "valid_utf8 (Title t)")
  case True
  with ex show ?thesis
    by (simp add: UpdateTicket_ok Let_def readTicket_present update_conv' foldl_updates_fields)
next
  case False
  then have "Title t \<noteq> []" by auto
  with ex False show ?thesis by (simp add: UpdateTicket_invalid)
qed

theorem UpdateTicket_partial_witness:
  "map_of collectionA
     (uuid_String (Ticket.ID (handleUpdateTicket_tck 1
        \<lparr>updateTicket.Title = Some ''b'', Price = None\<rparr>)))
     = Some (newDoc 10 ticketA) \<and>
   UpdateTicket defaultStorer 20 collectionA
     (handleUpdateTicket_tck 1 \<lparr>updateTicket.Title = Some ''b'', Price = None\<rparr>)
     = (Inr \<lparr>Ticket.ID = 1, Title = ''b'', Price = 0x4024000000000000, DateCreated = 10,
             DateUpdated = 20\<rparr>, collectionU ''b'') \<and>
   price (newDoc 10 ticketA) = Some 0x4024000000000000"
proof -
  have ex: "map_of collectionA
     (uuid_String (Ticket.ID (handleUpdateTicket_tck 1
        \<lparr>updateTicket.Title = Some ''b'', Price = None\<rparr>)))
     = Some (newDoc 10 ticketA)"
    by (simp add: handleUpdateTicket_tck_def map_of_collectionA)
  have v: "valid_utf8 (Title (handleUpdateTicket_tck 1
        \<lparr>updateTicket.Title = Some ''b'', Price = None\<rparr>))"
    by (simp add: handleUpdateTicket_tck_def)
  show ?thesis
    using ex v UpdateTicket_sample_title
      UpdateTicket_partial[OF ex, where s = defaultStorer and now = 20]
    by (simp add: newDoc_def ticketA_def)
qed

text \<open>
  C10. The empty title and the zero price are the store's way of saying that a field
  is not given: an update with an empty title keeps the stored title, one with a zero
  price keeps the stored price, so no update leaves an empty title or a zero price that
  was not there before, whatever it returns (it succeeds when the title is well-formed
  UTF-8, as the empty one is); two inputs that differ only in the sign of a zero price
  do the same; and the ticket the HTTP handler builds from a body with an explicit
  empty title or zero price is the one it builds from a body without the field, so
  the store would treat both alike (the handler's validation turns the explicit one
  down before the store is called).
\<close>

theorem UpdateTicket_zero_is_absent:
  assumes ex: "map_of db (uuid_String (Ticket.ID t)) = Some d"
  shows "(\<exists>r db' d'.
           UpdateTicket s now db t = (r, db') \<and>
           map_of db' (uuid_String (Ticket.ID t)) = Some d' \<and>
           (Title t = [] \<longrightarrow> title d' = title d) \<and>
           (f64_is_zero (Price t) \<longrightarrow> price d' = price d) \<and>
           (title d' = Some [] \<longrightarrow> title d = Some []) \<and>
           (\<forall>p. price d' = Some p \<and> f64_is_zero p \<longrightarrow> price d = Some p)) \<and>
         (valid_utf8 (Title t) \<longrightarrow>
           (\<exists>t' db' d'.
             UpdateTicket s now db t = (Inr t', db') \<and>
             map_of db' (uuid_String (Ticket.ID t)) = Some d' \<and>
             (Title t = [] \<longrightarrow> title d' = title d) \<and>
             (f64_is_zero (Price t) \<longrightarrow> price d' = price d) \<and>
             (title d' = Some [] \<longrightarrow> title d = Some []) \<and>
             (\<forall>p. price d' = Some p \<and> f64_is_zero p \<longrightarrow> price d = Some p))) \<and>
         (\<forall>u::Ticket. Ticket.ID u = Ticket.ID t \<and> Title u = Title t \<and>
              f64_is_zero (Price u) \<and> f64_is_zero (Price t) \<longrightarrow>
              UpdateTicket s now db u = UpdateTicket s now db t) \<and>
         (\<forall>tid p. UpdateTicket s now db
                     (handleUpdateTicket_tck tid \<lparr>updateTicket.Title = Some [], Price = p\<rparr>)
                 = UpdateTicket s now db
                     (handleUpdateTicket_tck tid \<lparr>updateTicket.Title = None, Price = p\<rparr>)) \<and>
         (\<forall>tid x. UpdateTicket s now db
                     (handleUpdateTicket_tck tid \<lparr>updateTicket.Title = x, Price = Some 0\<rparr>)
                 = UpdateTicket s now db
                     (handleUpdateTicket_tck tid \<lparr>updateTicket.Title = x, Price = None\<rparr>))"
proof (intro conjI allI impI)
  show "\<exists>r db' d'.
           UpdateTicket s now db t = (r, db') \<and>
           map_of db' (uuid_String (Ticket.ID t)) = Some d' \<and>
           (Title t = [] \<longrightarrow> title d' = title d) \<and>
           (f64_is_zero (Price t) \<longrightarrow> price d' = price d) \<and>
           (title d' = Some [] \<longrightarrow> title d = Some []) \<and>
           (\<forall>p. price d' = Some p \<and> f64_is_zero p \<longrightarrow> price d = Some p)"
  proof (cases "valid_utf8 (Title t)")
    case True
    with ex show ?thesis
      by (auto simp add: UpdateTicket_ok Let_def readTicket_present update_conv'
          foldl_updates_fields)
  next
    case False
    then have "Title t \<noteq> []" by auto
    with ex False show ?thesis by (simp add: UpdateTicket_invalid)
  qed
next
  assume "valid_utf8 (Title t)"
  with ex show "\<exists>t' db' d'.
           UpdateTicket s now db t = (Inr t', db') \<and>
           map_of db' (uuid_String (Ticket.ID t)) = Some d' \<and>
           (Title t = [] \<longrightarrow> title d' = title d) \<and>
           (f64_is_zero (Price t) \<longrightarrow> price d' = price d) \<and>
           (title d' = Some [] \<longrightarrow> title d = Some []) \<and>
           (\<forall>p. price d' = Some p \<and> f64_is_zero p \<longrightarrow> price d = Some p)"
    by (auto simp add: UpdateTicket_ok Let_def readTicket_present update_conv'
        foldl_updates_fields)
next
  fix u :: Ticket
  assume u: "Ticket.ID u = Ticket.ID t \<and> Title u = Title t \<and>
          f64_is_zero (Price u) \<and> f64_is_zero (Price t)"
  show "UpdateTicket s now db u = UpdateTicket s now db t"
  proof (cases "valid_utf8 (Title t)")
    case True
    with u ex show ?thesis by (simp add: UpdateTicket_ok Let_def updates_def)
  next
    case False
    with u ex show ?thesis by (simp add: UpdateTicket_invalid)
  qed
next
  fix tid p
  show "UpdateTicket s now db
          (handleUpdateTicket_tck tid \<lparr>updateTicket.Title = Some [], Price = p\<rparr>)
      = UpdateTicket s now db
          (handleUpdateTicket_tck tid \<lparr>updateTicket.Title = None, Price = p\<rparr>)"
    by (simp add: handleUpdateTicket_tck_def)
next
  fix tid x
  show "UpdateTicket s now db
          (handleUpdateTicket_tck tid \<lparr>updateTicket.Title = x, Price = Some 0\<rparr>)
      = UpdateTicket s now db
          (handleUpdateTicket_tck tid \<lparr>updateTicket.Title = x, Price = None\<rparr>)"
    by (simp add: handleUpdateTicket_tck_def)
qed

theorem UpdateTicket_zero_is_absent_witness:
  "map_of collectionA
     (uuid_String (Ticket.ID (handleUpdateTicket_tck 1
        \<lparr>updateTicket.Title = Some [], Price = Some 0\<rparr>)))
     = Some (newDoc 10 ticketA) \<and>
   UpdateTicket defaultStorer 20 collectionA
     (handleUpdateTicket_tck 1 \<lparr>updateTicket.Title = Some [], Price = Some 0\<rparr>)
     = (Inr \<lparr>Ticket.ID = 1, Title = ''a'', Price = 0x4024000000000000, DateCreated = 10,
             DateUpdated = 20\<rparr>, collectionU ''a'') \<and>
   title (newDoc 10 ticketA) = Some ''a'' \<and>
   price (newDoc 10 ticketA) = Some 0x4024000000000000"
proof -
  have ex: "map_of collectionA
     (uuid_String (Ticket.ID (handleUpdateTicket_tck 1
        \<lparr>updateTicket.Title = Some [], Price = Some 0\<rparr>)))
     = Some (newDoc 10 ticketA)"
    by (simp add: handleUpdateTicket_tck_def map_of_collectionA)
  have v: "valid_utf8 (Title (handleUpdateTicket_tck 1
        \<lparr>updateTicket.Title = Some [], Price = Some 0\<rparr>))"
    by (simp add: handleUpdateTicket_tck_def)
  show ?thesis
    using ex v UpdateTicket_sample_zero
      UpdateTicket_zero_is_absent[OF ex, where s = defaultStorer and now = 20]
    by (simp add: newDoc_def ticketA_def)
qed

section \<open>Timestamps\<close>

lemma CreateTicket_dateCreated:
  "CreateTicket s now db t = (e, db') \<Longrightarrow> map_of db n = Some d \<Longrightarrow>
   map_of db' n = Some d' \<Longrightarrow> dateCreated d' = dateCreated d"
  by (auto simp add: CreateTicket_def RunTransaction_def commit_def Let_def update_conv'
      map_of_snoc
      simp del: map_of_append split: option.splits sum.splits if_splits)

lemma UpdateTicket_cases:
  "(map_of db (uuid_String (Ticket.ID t)) = None \<and>
      UpdateTicket s now db t = (Inl ErrTicketNotFound, db)) \<or>
   (\<exists>d. map_of db (uuid_String (Ticket.ID t)) = Some d \<and> \<not> valid_utf8 (Title t) \<and>
      UpdateTicket s now db t = (Inl (Status Internal), db)) \<or>
   (\<exists>d. map_of db (uuid_String (Ticket.ID t)) = Some d \<and> valid_utf8 (Title t) \<and>
      UpdateTicket s now db t =
        (readTicket s (AList.update (uuid_String (Ticket.ID t))
                        (foldl (apply_update now) d (updates t)) db) (Ticket.ID t),
         AList.update (uuid_String (Ticket.ID t)) (foldl (apply_update now) d (updates t)) db))"
proof (cases "map_of db (uuid_String (Ticket.ID t))")
  case None
  then show ?thesis by (simp add: UpdateTicket_missing)
next
  case (Some d)
  then show ?thesis
    by (cases "valid_utf8 (Title t)") (simp_all add: UpdateTicket_invalid UpdateTicket_ok Let_def)
qed

lemma UpdateTicket_dateCreated:
  "UpdateTicket s now db t = (r, db') \<Longrightarrow> map_of db n = Some d \<Longrightarrow>
   map_of db' n = Some d' \<Longrightarrow> dateCreated d' = dateCreated d"
  using UpdateTicket_cases[of db t s now]
  by (auto simp add: update_conv' foldl_updates_fields split: if_splits)

lemma UpdateTicket_success:
  assumes "UpdateTicket s now db t = (Inr t', db')"
  shows "\<exists>d'. map_of db' (uuid_String (Ticket.ID t)) = Some d' \<and> dateUpdated d' = Some now \<and>
              DateUpdated t' = now"
  using UpdateTicket_cases[of db t s now] assms
  by (auto simp add: update_conv' foldl_updates_fields readTicket_present)

lemma DeleteTicket_dateCreated:
  "DeleteTicket s now db tid = (e, db') \<Longrightarrow> map_of db n = Some d \<Longrightarrow>
   map_of db' n = Some d' \<Longrightarrow> dateCreated d' = dateCreated d"
  by (auto simp add: DeleteTicket_def RunTransaction_def commit_def Let_def update_conv'
      delete_conv' split: option.splits sum.splits if_splits)

text \<open>
  C6. Every update that succeeds has stored the server's time of the update as
  \<open>dateUpdated\<close>, whatever fields the input carries, and the ticket returned shows it;
  an update of an existing ticket with a title that is well-formed UTF-8 (the empty
  one is) does succeed. A creation on a free name, with the counter there and a
  well-formed title, succeeds, and every creation that succeeds has stored the
  server's time of the creation as \<open>dateCreated\<close>. No creation, update or deletion
  changes the \<open>dateCreated\<close> of a document that is there before and after it.
\<close>

theorem timestamp_discipline:
  "(\<forall>d. map_of db (uuid_String (Ticket.ID t)) = Some d \<and> valid_utf8 (Title t) \<longrightarrow>
      (\<exists>t' db' d'. UpdateTicket s now db t = (Inr t', db') \<and>
         map_of db' (uuid_String (Ticket.ID t)) = Some d' \<and>
         dateUpdated d' = Some now \<and> DateUpdated t' = now)) \<and>
   (\<forall>t' db'. UpdateTicket s now db t = (Inr t', db') \<longrightarrow>
      (\<exists>d'. map_of db' (uuid_String (Ticket.ID t)) = Some d' \<and> dateUpdated d' = Some now \<and>
            DateUpdated t' = now)) \<and>
   (valid_utf8 (Title t) \<and> map_of db (uuid_String (Ticket.ID t)) = None \<and>
    map_of db (counterDocID s) \<noteq> None \<longrightarrow>
      (\<exists>db' d'. CreateTicket s now db t = (None, db') \<and>
         map_of db' (uuid_String (Ticket.ID t)) = Some d' \<and> dateCreated d' = Some now \<and>
         dateUpdated d' = None)) \<and>
   (\<forall>db'. CreateTicket s now db t = (None, db') \<longrightarrow>
      (\<exists>d'. map_of db' (uuid_String (Ticket.ID t)) = Some d' \<and> dateCreated d' = Some now)) \<and>
   (\<forall>n d d'. map_of db n = Some d \<longrightarrow>
      (map_of (snd (CreateTicket s now db t)) n = Some d' \<longrightarrow> dateCreated d' = dateCreated d) \<and>
      (map_of (snd (UpdateTicket s now db t)) n = Some d' \<longrightarrow> dateCreated d' = dateCreated d) \<and>
      (map_of (snd (DeleteTicket s now db tid)) n = Some d' \<longrightarrow>
         dateCreated d' = dateCreated d))"
proof (intro conjI allI impI)
  fix d assume "map_of db (uuid_String (Ticket.ID t)) = Some d \<and> valid_utf8 (Title t)"
  then show "\<exists>t' db' d'. UpdateTicket s now db t = (Inr t', db') \<and>
         map_of db' (uuid_String (Ticket.ID t)) = Some d' \<and>
         dateUpdated d' = Some now \<and> DateUpdated t' = now"
    by (simp add: UpdateTicket_ok Let_def readTicket_present update_conv' foldl_updates_fields)
next
  fix t' db' assume "UpdateTicket s now db t = (Inr t', db')"
  then show "\<exists>d'. map_of db' (uuid_String (Ticket.ID t)) = Some d' \<and> dateUpdated d' = Some now \<and>
            DateUpdated t' = now"
    by (rule UpdateTicket_success)
next
  assume a: "valid_utf8 (Title t) \<and> map_of db (uuid_String (Ticket.ID t)) = None \<and>
    map_of db (counterDocID s) \<noteq> None"
  then obtain c where c: "map_of db (counterDocID s) = Some c" by blast
  from a c have ne: "uuid_String (Ticket.ID t) \<noteq> counterDocID s" by auto
  from a c ne show "\<exists>db' d'. CreateTicket s now db t = (None, db') \<and>
         map_of db' (uuid_String (Ticket.ID t)) = Some d' \<and> dateCreated d' = Some now \<and>
         dateUpdated d' = None"
    by (simp add: CreateTicket_ok update_conv' map_of_snoc newDoc_def del: map_of_append)
next
  fix db' assume "CreateTicket s now db t = (None, db')"
  then show "\<exists>d'. map_of db' (uuid_String (Ticket.ID t)) = Some d' \<and> dateCreated d' = Some now"
    by (auto simp add: CreateTicket_def RunTransaction_def commit_def Let_def update_conv'
        map_of_snoc
        simp del: map_of_append split: option.splits sum.splits if_splits)
next
  fix n d d' assume "map_of db n = Some d" "map_of (snd (CreateTicket s now db t)) n = Some d'"
  then show "dateCreated d' = dateCreated d"
    using CreateTicket_dateCreated[OF prod.collapse[symmetric]] by blast
next
  fix n d d' assume "map_of db n = Some d" "map_of (snd (UpdateTicket s now db t)) n = Some d'"
  then show "dateCreated d' = dateCreated d"
    using UpdateTicket_dateCreated[OF prod.collapse[symmetric]] by blast
next
  fix n d d' assume "map_of db n = Some d" "map_of (snd (DeleteTicket s now db tid)) n = Some d'"
  then show "dateCreated d' = dateCreated d"
    using DeleteTicket_dateCreated[OF prod.collapse[symmetric]] by blast
qed

theorem timestamp_discipline_witness:
  "valid_utf8 (Title ticketA) \<and>
   map_of collection0 (uuid_String (Ticket.ID ticketA)) = None \<and>
   map_of collection0 (counterDocID defaultStorer) = Some (counterDoc 0) \<and>
   CreateTicket defaultStorer 10 collection0 ticketA = (None, collectionA) \<and>
   map_of collectionA (uuid_String 1) = Some (newDoc 10 ticketA) \<and>
   dateCreated (newDoc 10 ticketA) = Some 10 \<and>
   dateUpdated (newDoc 10 ticketA) = None \<and>
   UpdateTicket defaultStorer 20 collectionA
     (handleUpdateTicket_tck 1 \<lparr>updateTicket.Title = Some [], Price = Some 0\<rparr>)
     = (Inr \<lparr>Ticket.ID = 1, Title = ''a'', Price = 0x4024000000000000, DateCreated = 10,
             DateUpdated = 20\<rparr>, collectionU ''a'') \<and>
   map_of (collectionU ''a'') (uuid_String 1)
     = Some \<lparr>title = Some ''a'', price = Some 0x4024000000000000, dateCreated = Some 10,
             dateUpdated = Some 20, totalTickets = None\<rparr>"
proof -
  have v: "valid_utf8 (Title ticketA)" by (simp add: ticketA_def)
  have fr: "map_of collection0 (uuid_String (Ticket.ID ticketA)) = None"
    by (simp add: collection0_def ticketA_def uuid_String_1)
  have c: "map_of collection0 (counterDocID defaultStorer) = Some (counterDoc 0)"
    by (simp add: collection0_def defaultStorer_def)
  have "\<exists>db' d'. CreateTicket defaultStorer 10 collection0 ticketA = (None, db') \<and>
         map_of db' (uuid_String (Ticket.ID ticketA)) = Some d' \<and> dateCreated d' = Some 10 \<and>
         dateUpdated d' = None"
    using timestamp_discipline[where db = collection0 and s = defaultStorer and now = 10
        and t = ticketA] v fr c
    by simp
  then have cr: "CreateTicket defaultStorer 10 collection0 ticketA = (None, collectionA)"
    using CreateTicket_sample by simp
  show ?thesis
    using v fr c cr map_of_collectionA UpdateTicket_sample_zero
      timestamp_discipline[where db = collectionA and s = defaultStorer and now = 20
        and tid = 1
        and t = "handleUpdateTicket_tck 1 \<lparr>updateTicket.Title = Some [], Price = Some 0\<rparr>"]
    by (simp add: newDoc_def collectionU_def uuid_String_1)
qed

section \<open>The total over a run\<close>

text \<open>
  Where the counter is there, its name is no identifier's text, and the run is short
  enough to keep the total within the 64 bits of the store's integer, the total after
  a run is the total before it plus the successful creations minus the successful
  deletions, whether or not a deletion found a document to delete.
\<close>

lemma CreateTicket_counterValue:
  assumes "uuid_String (Ticket.ID t) \<noteq> counterDocID s" "counterValue s db = Some v"
  shows "CreateTicket s now db t = (None, db') \<Longrightarrow> counterValue s db' = Some (sat64 (v + 1))"
    "CreateTicket s now db t = (Some e, db') \<Longrightarrow> db' = db"
  using assms
  by (auto simp add: CreateTicket_def RunTransaction_def commit_def Let_def counterValue_def
      Get_def update_conv' map_of_snoc docToPersistedCounter_def sat64_def
      simp del: map_of_append split: option.splits sum.splits if_splits)

lemma DeleteTicket_counterValue:
  assumes "uuid_String tid \<noteq> counterDocID s" "counterValue s db = Some v"
  shows "DeleteTicket s now db tid = (None, db') \<Longrightarrow> counterValue s db' = Some (sat64 (v - 1))"
    "DeleteTicket s now db tid = (Some e, db') \<Longrightarrow> db' = db"
  using assms
  by (auto simp add: DeleteTicket_def RunTransaction_def commit_def Let_def counterValue_def
      Get_def update_conv' delete_conv' docToPersistedCounter_def sat64_def
      split: option.splits sum.splits if_splits)

lemma run_total:
  assumes "\<forall>u. uuid_String u \<noteq> counterDocID s"
  shows "counterValue s db = Some v \<Longrightarrow>
         - (2 ^ 63) \<le> v - int (length ops) \<Longrightarrow> v + int (length ops) \<le> 2 ^ 63 - 1 \<Longrightarrow>
         counterValue s (fst (run s db ops)) = Some (v + snd (run s db ops)) \<and>
         \<bar>snd (run s db ops)\<bar> \<le> int (length ops)"
proof (induction ops arbitrary: db v)
  case Nil
  then show ?case by simp
next
  case (Cons x ops)
  have lo: "- (2 ^ 63) \<le> v - 1" and hi: "v + 1 \<le> 2 ^ 63 - 1"
    using Cons.prems(2,3) by simp_all
  have same: "- (2 ^ 63) \<le> v - int (length ops)" "v + int (length ops) \<le> 2 ^ 63 - 1"
    using Cons.prems(2,3) by simp_all
  show ?case
  proof (cases x)
    case (DoCreate now t)
    obtain r db' where c: "CreateTicket s now db t = (r, db')" by (cases "CreateTicket s now db t")
    show ?thesis
    proof (cases r)
      case None
      with c CreateTicket_counterValue(1)[OF _ Cons.prems(1)] assms
      have "counterValue s db' = Some (sat64 (v + 1))" by blast
      then have cv: "counterValue s db' = Some (v + 1)" using lo hi by (simp add: sat64_def)
      have "- (2 ^ 63) \<le> (v + 1) - int (length ops)" "(v + 1) + int (length ops) \<le> 2 ^ 63 - 1"
        using Cons.prems(2,3) by simp_all
      from Cons.IH[OF cv this] c None DoCreate show ?thesis
        by (auto split: prod.splits)
    next
      case (Some e)
      with c CreateTicket_counterValue(2)[OF _ Cons.prems(1)] assms have "db' = db" by blast
      with Cons.IH[OF Cons.prems(1) same] c Some DoCreate show ?thesis by simp
    qed
  next
    case (DoDelete now tid)
    obtain r db' where c: "DeleteTicket s now db tid = (r, db')"
      by (cases "DeleteTicket s now db tid")
    show ?thesis
    proof (cases r)
      case None
      with c DeleteTicket_counterValue(1)[OF _ Cons.prems(1)] assms
      have "counterValue s db' = Some (sat64 (v - 1))" by blast
      then have cv: "counterValue s db' = Some (v - 1)" using lo hi by (simp add: sat64_def)
      have "- (2 ^ 63) \<le> (v - 1) - int (length ops)" "(v - 1) + int (length ops) \<le> 2 ^ 63 - 1"
        using Cons.prems(2,3) by simp_all
      from Cons.IH[OF cv this] c None DoDelete show ?thesis
        by (auto split: prod.splits)
    next
      case (Some e)
      with c DeleteTicket_counterValue(2)[OF _ Cons.prems(1)] assms have "db' = db" by blast
      with Cons.IH[OF Cons.prems(1) same] c Some DoDelete show ?thesis by simp
    qed
  qed
qed

section \<open>Listing\<close>

lemma cursorDoc_Nil: "cursorDoc db uuid_Nil = Inr None"
  by (simp add: cursorDoc_def)

lemma cursorDoc_missing:
  "tid \<noteq> uuid_Nil \<Longrightarrow> map_of db (uuid_String tid) = None \<Longrightarrow>
   cursorDoc db tid = Inl ErrTicketNotFound"
  by (simp add: cursorDoc_def uuid_String_inj Get_def)

lemma cursorDoc_present:
  "tid \<noteq> uuid_Nil \<Longrightarrow> map_of db (uuid_String tid) = Some d \<Longrightarrow>
   cursorDoc db tid = Inr (Some (uuid_String tid, d))"
  by (simp add: cursorDoc_def uuid_String_inj Get_def)

lemma set_ordered: "set (ordered db) = {e \<in> set db. has_dateCreated e}"
  by (auto simp add: ordered_def)

lemma ticketName_parse: "ticketName n \<Longrightarrow> uuid_Parse n \<noteq> None"
  by (auto simp add: ticketName_def split: option.splits)

lemma ticketStore_ordered:
  assumes "ticketStore s db" "e \<in> set (ordered db)"
  shows "e \<in> set db" "fst e \<noteq> counterDocID s" "ticketName (fst e)"
        "dateCreated (snd e) \<noteq> None"
proof -
  have m: "e \<in> set db" "dateCreated (snd e) \<noteq> None"
    using assms(2) by (simp_all add: set_ordered has_dateCreated_def)
  have "\<forall>e \<in> set db. if fst e = counterDocID s then dateCreated (snd e) = None
                     else dateCreated (snd e) \<noteq> None \<and> ticketName (fst e)"
    using assms(1) unfolding ticketStore_def by (rule conjunct2)
  then have i: "if fst e = counterDocID s then dateCreated (snd e) = None
            else dateCreated (snd e) \<noteq> None \<and> ticketName (fst e)"
    using m(1) by (rule bspec)
  show "e \<in> set db" by (rule m(1))
  show "dateCreated (snd e) \<noteq> None" by (rule m(2))
  show "fst e \<noteq> counterDocID s" using i m(2) by (cases "fst e = counterDocID s") simp_all
  then show "ticketName (fst e)" using i by simp
qed

lemma docToPersistedTicket_ID: "persistedTicket.ID (docToPersistedTicket e) = fst e"
  by (simp add: docToPersistedTicket_def)

lemma toDomainTicket_ok:
  "uuid_Parse (fst e) \<noteq> None \<Longrightarrow> toDomainTicket (docToPersistedTicket e) = Inr (ticketOf e)"
  unfolding ticketOf_def toDomainTicket_def docToPersistedTicket_ID
  by (cases "uuid_Parse (fst e)") simp_all

lemma toDomainTicket_panic:
  "uuid_Parse (fst e) = None \<Longrightarrow> toDomainTicket (docToPersistedTicket e) = Inl Panic"
  unfolding toDomainTicket_def docToPersistedTicket_ID by simp

lemma toTickets_ok:
  "\<forall>e \<in> set ds. uuid_Parse (fst e) \<noteq> None \<Longrightarrow> toTickets ds = Inr (map ticketOf ds)"
  by (induction ds) (simp_all add: toDomainTicket_ok)

lemma toTickets_Inr:
  "toTickets ds = Inr tt \<Longrightarrow> tt = map ticketOf ds \<and> (\<forall>e \<in> set ds. uuid_Parse (fst e) \<noteq> None)"
proof (induction ds arbitrary: tt)
  case Nil
  then show ?case by simp
next
  case (Cons e ds)
  show ?case
  proof (cases "uuid_Parse (fst e)")
    case None
    with Cons.prems show ?thesis by (simp add: toDomainTicket_panic)
  next
    case (Some u)
    then have ok: "toDomainTicket (docToPersistedTicket e) = Inr (ticketOf e)"
      by (simp add: toDomainTicket_ok)
    from Cons.prems obtain rest where r: "toTickets ds = Inr rest" "tt = ticketOf e # rest"
      by (auto simp add: ok split: sum.splits)
    from Cons.IH[OF r(1)] r(2) Some show ?thesis by simp
  qed
qed

lemma ReadTickets_failure:
  "ReadTickets s db flt = (tt, m, Some e) \<Longrightarrow> tt = [] \<and> m = zeroMetadata"
  unfolding ReadTickets_def Let_def
  by (simp split: sum.splits)

lemma cursorDoc_cases:
  assumes "tid = uuid_Nil \<or> map_of db (uuid_String tid) \<noteq> None"
  shows "\<exists>c. cursorDoc db tid = Inr c \<and>
             (case c of None \<Rightarrow> tid = uuid_Nil
              | Some e \<Rightarrow> tid \<noteq> uuid_Nil \<and> fst e = uuid_String tid \<and> map_of db (fst e) = Some (snd e))"
proof (cases "tid = uuid_Nil")
  case True
  then show ?thesis by (simp add: cursorDoc_Nil)
next
  case False
  with assms obtain d where "map_of db (uuid_String tid) = Some d" by auto
  with False show ?thesis by (simp add: cursorDoc_present)
qed

lemma Documents_ok:
  "cursor_ok a \<Longrightarrow> cursor_ok b \<Longrightarrow> 0 \<le> n \<Longrightarrow>
   Documents db \<lparr>limit = n, startAfter = a, endBefore = b\<rparr> = Inr (page db n a b)"
  by (simp add: Documents_def page_def)

lemma set_page: "set (page db n a b) \<subseteq> set (ordered db)"
  unfolding page_def by (meson filter_is_subset set_take_subset subset_trans)

lemma ReadTickets_page:
  assumes st: "ticketStore s db"
    and ca: "cursorDoc db (Filter.After flt) = Inr a" and cb: "cursorDoc db (Filter.Before flt) = Inr b"
    and oa: "cursor_ok a" and ob: "cursor_ok b" and n: "0 \<le> Limit flt"
  shows "ReadTickets s db flt =
           (let tt = map ticketOf (page db (trunc32 (Limit flt)) a b)
            in case map_of db (counterDocID s) of
                 None \<Rightarrow> ([], zeroMetadata, Some ErrCounterNotFound)
               | Some c \<Rightarrow>
                   (tt, \<lparr>Metadata.Before = (if tt = [] then 0 else Ticket.ID (hd tt)),
                         After = (if tt = [] then 0 else Ticket.ID (last tt)),
                         Total = (case totalTickets c of None \<Rightarrow> 0 | Some v \<Rightarrow> v)\<rparr>, None))"
proof -
  have n': "0 \<le> trunc32 (Limit flt)" using trunc32_bounds[OF n] by simp
  have "\<forall>e \<in> set (page db (trunc32 (Limit flt)) a b). uuid_Parse (fst e) \<noteq> None"
    using set_page ticketStore_ordered(3)[OF st] ticketName_parse by blast
  then have tt: "toTickets (page db (trunc32 (Limit flt)) a b) = Inr (map ticketOf (page db (trunc32 (Limit flt)) a b))"
    by (rule toTickets_ok)
  show ?thesis
    unfolding ReadTickets_def
    by (simp add: ca cb Documents_ok[OF oa ob n'] tt Get_def Let_def docToPersistedCounter_def
        hd_conv_nth last_conv_nth split: option.splits)
qed

lemma cursor_ok_store:
  assumes st: "ticketStore s db" and m: "map_of db (fst e) = Some (snd e)"
    and ne: "fst e \<noteq> counterDocID s"
  shows "cursor_ok (Some e)"
proof -
  have "(fst e, snd e) \<in> set db" using m by (rule map_of_SomeD)
  then have mem: "e \<in> set db" by simp
  have "\<forall>e \<in> set db. if fst e = counterDocID s then dateCreated (snd e) = None
                     else dateCreated (snd e) \<noteq> None \<and> ticketName (fst e)"
    using st unfolding ticketStore_def by (rule conjunct2)
  then have "if fst e = counterDocID s then dateCreated (snd e) = None
                     else dateCreated (snd e) \<noteq> None \<and> ticketName (fst e)"
    using mem by (rule bspec)
  with ne show ?thesis by (simp add: cursor_ok_def has_dateCreated_def)
qed

text \<open>
  C8. \<^verbatim>\<open>ReadTickets\<close> with a cursor (\<open>After\<close> or \<open>Before\<close>) that names no document fails
  with \<open>ErrTicketNotFound\<close>. On a collection of tickets without the counter document,
  with a limit that is not negative and cursors that are unset or resolve, it fails
  with \<open>ErrCounterNotFound\<close>, a different error. Whenever it fails it returns no
  ticket and the zero metadata.
\<close>

theorem ReadTickets_errors:
  "((Filter.After flt \<noteq> uuid_Nil \<and> map_of db (uuid_String (Filter.After flt)) = None) \<or>
    (Filter.Before flt \<noteq> uuid_Nil \<and> map_of db (uuid_String (Filter.Before flt)) = None) \<longrightarrow>
      ReadTickets s db flt = ([], zeroMetadata, Some ErrTicketNotFound)) \<and>
   (ticketStore s db \<and> 0 \<le> Limit flt \<and> map_of db (counterDocID s) = None \<and>
    (Filter.After flt = uuid_Nil \<or> map_of db (uuid_String (Filter.After flt)) \<noteq> None) \<and>
    (Filter.Before flt = uuid_Nil \<or> map_of db (uuid_String (Filter.Before flt)) \<noteq> None) \<longrightarrow>
      ReadTickets s db flt = ([], zeroMetadata, Some ErrCounterNotFound)) \<and>
   ErrTicketNotFound \<noteq> ErrCounterNotFound \<and>
   (\<forall>tt m e. ReadTickets s db flt = (tt, m, Some e) \<longrightarrow> tt = [] \<and> m = zeroMetadata)"
proof (intro conjI allI impI)
  assume h: "(Filter.After flt \<noteq> uuid_Nil \<and> map_of db (uuid_String (Filter.After flt)) = None) \<or>
    (Filter.Before flt \<noteq> uuid_Nil \<and> map_of db (uuid_String (Filter.Before flt)) = None)"
  show "ReadTickets s db flt = ([], zeroMetadata, Some ErrTicketNotFound)"
  proof (cases "Filter.After flt \<noteq> uuid_Nil \<and> map_of db (uuid_String (Filter.After flt)) = None")
    case True
    then show ?thesis by (simp add: ReadTickets_def cursorDoc_missing)
  next
    case False
    with h have b: "cursorDoc db (Filter.Before flt) = Inl ErrTicketNotFound"
      by (simp add: cursorDoc_missing)
    from False have "Filter.After flt = uuid_Nil \<or> map_of db (uuid_String (Filter.After flt)) \<noteq> None"
      by auto
    from cursorDoc_cases[OF this] obtain c where "cursorDoc db (Filter.After flt) = Inr c"
      by blast
    with b show ?thesis by (simp add: ReadTickets_def)
  qed
next
  assume h: "ticketStore s db \<and> 0 \<le> Limit flt \<and> map_of db (counterDocID s) = None \<and>
    (Filter.After flt = uuid_Nil \<or> map_of db (uuid_String (Filter.After flt)) \<noteq> None) \<and>
    (Filter.Before flt = uuid_Nil \<or> map_of db (uuid_String (Filter.Before flt)) \<noteq> None)"
  then have st: "ticketStore s db" and n: "0 \<le> Limit flt"
    and c: "map_of db (counterDocID s) = None" by simp_all
  from h cursorDoc_cases[of "Filter.After flt" db] obtain a where
    a: "cursorDoc db (Filter.After flt) = Inr a"
       "case a of None \<Rightarrow> True | Some e \<Rightarrow> map_of db (fst e) = Some (snd e)"
    by (auto split: option.splits)
  from h cursorDoc_cases[of "Filter.Before flt" db] obtain b where
    b: "cursorDoc db (Filter.Before flt) = Inr b"
       "case b of None \<Rightarrow> True | Some e \<Rightarrow> map_of db (fst e) = Some (snd e)"
    by (auto split: option.splits)
  have oa: "cursor_ok a"
  proof (cases a)
    case None
    then show ?thesis by (simp add: cursor_ok_def)
  next
    case (Some e)
    with a(2) have m: "map_of db (fst e) = Some (snd e)" by simp
    with c have "fst e \<noteq> counterDocID s" by auto
    with Some cursor_ok_store[OF st m] show ?thesis by simp
  qed
  have ob: "cursor_ok b"
  proof (cases b)
    case None
    then show ?thesis by (simp add: cursor_ok_def)
  next
    case (Some e)
    with b(2) have m: "map_of db (fst e) = Some (snd e)" by simp
    with c have "fst e \<noteq> counterDocID s" by auto
    with Some cursor_ok_store[OF st m] show ?thesis by simp
  qed
  show "ReadTickets s db flt = ([], zeroMetadata, Some ErrCounterNotFound)"
    by (simp add: ReadTickets_page[OF st a(1) b(1) oa ob n] c)
next
  show "ErrTicketNotFound \<noteq> ErrCounterNotFound" by simp
next
  fix tt m e assume "ReadTickets s db flt = (tt, m, Some e)"
  then show "tt = []" using ReadTickets_failure by blast
next
  fix tt m e assume "ReadTickets s db flt = (tt, m, Some e)"
  then show "m = zeroMetadata" using ReadTickets_failure by blast
qed

subsection \<open>The shape of a page\<close>

lemma ticketOf_fields:
  assumes "uuid_Parse (fst e) = Some u"
  shows "Ticket.ID (ticketOf e) = u"
    "DateCreated (ticketOf e) = fst (position e)"
  using assms
  by (simp_all add: ticketOf_def toDomainTicket_def docToPersistedTicket_def position_def)

lemma ordered_sorted: "sorted_wrt (\<lambda>x y. position y \<le> position x) (ordered db)"
proof -
  have "sorted (map position (sort_key position (filter has_dateCreated db)))"
    by (rule sorted_sort_key)
  then have "sorted_wrt (\<lambda>x y. position x \<le> position y) (sort_key position (filter has_dateCreated db))"
    by (simp add: sorted_wrt_map)
  then show ?thesis by (simp add: ordered_def sorted_wrt_rev)
qed

lemma page_sorted: "sorted_wrt (\<lambda>x y. position y \<le> position x) (page db n a b)"
  unfolding page_def by (intro sorted_wrt_take sorted_wrt_filter ordered_sorted)

lemma in_range_fields:
  "in_range \<lparr>limit = n, startAfter = startAfter q, endBefore = endBefore q\<rparr> = in_range q"
  by (rule ext) (simp add: in_range_def)

lemma Documents_Inr:
  "Documents db q = Inr ds \<Longrightarrow> 0 \<le> limit q \<and> ds = page db (limit q) (startAfter q) (endBefore q)"
  by (auto simp add: Documents_def page_def in_range_fields split: if_splits)

lemma page_length: "0 \<le> n \<Longrightarrow> int (length (page db n a b)) \<le> n"
  by (simp add: page_def)

lemma ReadTickets_success:
  assumes "ReadTickets s db flt = (tt, m, None)"
  shows "\<exists>a b c. tt = map ticketOf (page db (trunc32 (Limit flt)) a b) \<and> 0 \<le> trunc32 (Limit flt) \<and>
          (\<forall>e \<in> set (page db (trunc32 (Limit flt)) a b). uuid_Parse (fst e) \<noteq> None) \<and>
          map_of db (counterDocID s) = Some c \<and>
          m = \<lparr>Metadata.Before = (if tt = [] then 0 else Ticket.ID (hd tt)),
               After = (if tt = [] then 0 else Ticket.ID (last tt)),
               Total = (case totalTickets c of None \<Rightarrow> 0 | Some v \<Rightarrow> v)\<rparr>"
proof -
  from assms obtain a b ds cd where
    d: "Documents db \<lparr>limit = trunc32 (Limit flt), startAfter = a, endBefore = b\<rparr> = Inr ds"
    and t: "toTickets ds = Inr tt"
    and g: "Get db (counterDocID s) = Inr cd"
    and m: "m = \<lparr>Metadata.Before = (if length tt > 0 then Ticket.ID (tt ! 0) else 0),
                  After = (if length tt > 0 then Ticket.ID (tt ! (length tt - 1)) else 0),
                  Total = TotalTickets (docToPersistedCounter cd)\<rparr>"
    unfolding ReadTickets_def Let_def by (simp split: sum.splits)
  from Documents_Inr[OF d] have n: "0 \<le> trunc32 (Limit flt)" and ds: "ds = page db (trunc32 (Limit flt)) a b"
    by simp_all
  from g obtain c where c: "map_of db (counterDocID s) = Some c" "cd = (counterDocID s, c)"
    by (auto simp add: Get_def split: option.splits)
  from toTickets_Inr[OF t] ds n c m show ?thesis
    by (auto simp add: docToPersistedCounter_def hd_conv_nth last_conv_nth)
qed

lemma page_shape:
  assumes "ReadTickets s db flt = (tt, m, None)"
  shows "int (length tt) \<le> trunc32 (Limit flt) \<and>
         (0 \<le> Limit flt \<longrightarrow> int (length tt) \<le> Limit flt) \<and>
         sorted_wrt (\<lambda>x y. DateCreated y \<le> DateCreated x) tt \<and>
         Metadata.Before m = (if tt = [] then uuid_Nil else Ticket.ID (hd tt)) \<and>
         Metadata.After m = (if tt = [] then uuid_Nil else Ticket.ID (last tt))"
proof -
  from ReadTickets_success[OF assms] obtain a b c where
    tt: "tt = map ticketOf (page db (trunc32 (Limit flt)) a b)" and n: "0 \<le> trunc32 (Limit flt)"
    and p: "\<forall>e \<in> set (page db (trunc32 (Limit flt)) a b). uuid_Parse (fst e) \<noteq> None"
    and c: "map_of db (counterDocID s) = Some c"
    and m: "m = \<lparr>Metadata.Before = (if tt = [] then 0 else Ticket.ID (hd tt)),
               After = (if tt = [] then 0 else Ticket.ID (last tt)),
               Total = (case totalTickets c of None \<Rightarrow> 0 | Some v \<Rightarrow> v)\<rparr>"
    by blast
  have len: "int (length tt) \<le> trunc32 (Limit flt)" using page_length[OF n] by (simp add: tt)
  have len': "0 \<le> Limit flt \<longrightarrow> int (length tt) \<le> Limit flt"
    using len trunc32_bounds[of "Limit flt"] by auto
  have "sorted_wrt (\<lambda>x y. DateCreated (ticketOf y) \<le> DateCreated (ticketOf x))
          (page db (trunc32 (Limit flt)) a b)"
  proof (rule sorted_wrt_mono_rel[OF _ page_sorted])
    fix x y assume x: "x \<in> set (page db (trunc32 (Limit flt)) a b)"
      and y: "y \<in> set (page db (trunc32 (Limit flt)) a b)"
      and le: "position y \<le> position x"
    from p x obtain u where "uuid_Parse (fst x) = Some u" by blast
    moreover from p y obtain v where "uuid_Parse (fst y) = Some v" by blast
    ultimately have "uuid_Parse (fst x) = Some u" "uuid_Parse (fst y) = Some v" by simp_all
    then have "DateCreated (ticketOf x) = fst (position x)" "DateCreated (ticketOf y) = fst (position y)"
      by (simp_all add: ticketOf_fields)
    moreover from le have "fst (position y) \<le> fst (position x)"
      by (auto simp add: less_eq_prod_def)
    ultimately show "DateCreated (ticketOf y) \<le> DateCreated (ticketOf x)" by simp
  qed
  then have "sorted_wrt (\<lambda>x y. DateCreated y \<le> DateCreated x) tt"
    by (simp add: tt sorted_wrt_map)
  with len len' m show ?thesis by (simp add: uuid_Nil_def)
qed

subsection \<open>Following the cursors\<close>

lemma position_inj:
  assumes "distinct (map fst db)"
  shows "inj_on position (set db)"
proof (rule inj_onI)
  fix x y assume x: "x \<in> set db" and y: "y \<in> set db" and e: "position x = position y"
  from e have "fst x = fst y" by (simp add: position_def)
  moreover from assms have "inj_on fst (set db)" by (simp add: distinct_map)
  ultimately show "x = y" using x y by (simp add: inj_on_def)
qed

lemma ordered_strict:
  assumes "distinct (map fst db)"
  shows "sorted_wrt (\<lambda>x y. position y < position x) (ordered db)"
proof -
  let ?zs = "filter has_dateCreated db"
  let ?ys = "sort_key position ?zs"
  have d: "distinct db" using assms by (simp add: distinct_map)
  have "inj_on position (set ?ys)"
    using position_inj[OF assms] by (auto simp add: inj_on_def)
  moreover have "distinct ?ys" using d by simp
  ultimately have "distinct (map position ?ys)" by (simp add: distinct_map)
  moreover have "sorted (map position ?ys)" by (rule sorted_sort_key)
  ultimately have "sorted_wrt (<) (map position ?ys)" by (simp add: strict_sorted_iff)
  then have "sorted_wrt (\<lambda>x y. position x < position y) ?ys" by (simp add: sorted_wrt_map)
  then show ?thesis by (simp add: ordered_def sorted_wrt_rev)
qed

lemma filter_below:
  "sorted_wrt (\<lambda>x y. position y < position x) xs \<Longrightarrow> i < length xs \<Longrightarrow>
   filter (\<lambda>e. position e < position (xs ! i)) xs = drop (Suc i) xs"
proof (induction xs arbitrary: i)
  case Nil
  then show ?case by simp
next
  case (Cons x xs)
  show ?case
  proof (cases i)
    case 0
    from Cons.prems(1) have "\<forall>y \<in> set xs. position y < position x" by simp
    then have "filter (\<lambda>e. position e < position x) xs = xs" by simp
    with 0 show ?thesis by simp
  next
    case (Suc j)
    with Cons.prems have j: "j < length xs" by simp
    then have "xs ! j \<in> set xs" by simp
    with Cons.prems(1) have "position (xs ! j) < position x" by simp
    then have "\<not> position x < position (xs ! j)" by simp
    moreover from Cons.prems(1) have "sorted_wrt (\<lambda>x y. position y < position x) xs" by simp
    ultimately show ?thesis using Cons.IH[OF _ j] Suc by simp
  qed
qed

lemma page_first: "page db n None None = take (nat n) (ordered db)"
  by (simp add: page_def in_range_def)

lemma page_after:
  assumes "distinct (map fst db)" "i < length (ordered db)"
  shows "page db n (Some (ordered db ! i)) None = take (nat n) (drop (Suc i) (ordered db))"
proof -
  have "in_range \<lparr>limit = n, startAfter = Some (ordered db ! i), endBefore = None\<rparr>
          = (\<lambda>e. position e < position (ordered db ! i))"
    by (rule ext) (simp add: in_range_def)
  then show ?thesis
    using filter_below[OF ordered_strict[OF assms(1)] assms(2)] by (simp add: page_def)
qed

lemma ticketStore_ticket:
  assumes st: "ticketStore s db" and e: "e \<in> set (ordered db)"
  shows "Ticket.ID (ticketOf e) \<noteq> uuid_Nil"
    "uuid_String (Ticket.ID (ticketOf e)) = fst e"
    "map_of db (fst e) = Some (snd e)"
proof -
  from ticketStore_ordered(3)[OF st e] obtain u where
    u: "uuid_Parse (fst e) = Some u" "u \<noteq> uuid_Nil" "uuid_String u = fst e"
    by (auto simp add: ticketName_def split: option.splits)
  then show "Ticket.ID (ticketOf e) \<noteq> uuid_Nil" "uuid_String (Ticket.ID (ticketOf e)) = fst e"
    by (simp_all add: ticketOf_fields)
  have "distinct (map fst db)" using st by (simp add: ticketStore_def)
  moreover have "(fst e, snd e) \<in> set db" using ticketStore_ordered(1)[OF st e] by simp
  ultimately show "map_of db (fst e) = Some (snd e)" by (rule map_of_is_SomeI)
qed

lemma ReadTickets_forward:
  assumes st: "ticketStore s db" and c: "map_of db (counterDocID s) = Some c"
    and n: "0 < n" and j: "j \<le> length (ordered db)"
    and a: "if j = 0 then after = uuid_Nil else after = Ticket.ID (ticketOf (ordered db ! (j - 1)))"
  shows "\<exists>m. ReadTickets s db \<lparr>Filter.Before = uuid_Nil, After = after, Limit = n\<rparr>
               = (map ticketOf (take (nat (trunc32 n)) (drop j (ordered db))), m, None) \<and>
             (drop j (ordered db) \<noteq> [] \<longrightarrow>
                Metadata.After m = Ticket.ID (last (map ticketOf (take (nat (trunc32 n)) (drop j (ordered db))))))"
proof -
  let ?flt = "\<lparr>Filter.Before = uuid_Nil, After = after, Limit = n\<rparr>"
  have d: "distinct (map fst db)" using st by (simp add: ticketStore_def)
  have cb: "cursorDoc db (Filter.Before ?flt) = Inr None" by (simp add: cursorDoc_Nil)
  have n0: "0 \<le> Limit ?flt" using n by simp
  have ne: "take (nat (trunc32 n)) (drop j (ordered db)) \<noteq> []" if "drop j (ordered db) \<noteq> []"
    using that trunc32_pos[OF n] by simp
  show ?thesis
  proof (cases "j = 0")
    case True
    with a have ca: "cursorDoc db (Filter.After ?flt) = Inr None" by (simp add: cursorDoc_Nil)
    show ?thesis
      using ReadTickets_page[OF st ca cb _ _ n0] c True ne
      by (simp add: cursor_ok_def page_first Let_def)
  next
    case False
    define e where "e = ordered db ! (j - 1)"
    from False j have i: "j - 1 < length (ordered db)" by simp
    then have mem: "e \<in> set (ordered db)" by (simp add: e_def)
    from False a have after: "after = Ticket.ID (ticketOf e)" by (simp add: e_def)
    note t = ticketStore_ticket[OF st mem]
    have "cursorDoc db after = Inr (Some (uuid_String after, snd e))"
      using t after by (simp add: cursorDoc_present)
    then have ca: "cursorDoc db (Filter.After ?flt) = Inr (Some e)"
      using t(2) after by simp
    have oa: "cursor_ok (Some e)"
      using ticketStore_ordered(4)[OF st mem] by (simp add: cursor_ok_def has_dateCreated_def)
    have pg: "page db (trunc32 n) (Some e) None = take (nat (trunc32 n)) (drop j (ordered db))"
      using page_after[OF d i, of "trunc32 n"] False by (simp add: e_def)
    show ?thesis
      using ReadTickets_page[OF st ca cb oa _ n0] c ne
      by (simp add: cursor_ok_def pg Let_def)
  qed
qed

lemma traverse_from:
  assumes st: "ticketStore s db" and c: "map_of db (counterDocID s) = Some c" and n: "0 < n"
  shows "j \<le> length (ordered db) \<Longrightarrow>
         (if j = 0 then after = uuid_Nil else after = Ticket.ID (ticketOf (ordered db ! (j - 1)))) \<Longrightarrow>
         length (ordered db) - j < k \<Longrightarrow>
         traverse k s db n after = Some (Inr (map ticketOf (drop j (ordered db))))"
proof (induction k arbitrary: j after)
  case 0
  then show ?case by simp
next
  case (Suc k)
  let ?xs = "ordered db"
  let ?pg = "take (nat (trunc32 n)) (drop j ?xs)"
  from ReadTickets_forward[OF st c n Suc.prems(1) Suc.prems(2)] obtain m where
    r: "ReadTickets s db \<lparr>Filter.Before = uuid_Nil, After = after, Limit = n\<rparr>
          = (map ticketOf ?pg, m, None)"
    and ma: "drop j ?xs \<noteq> [] \<longrightarrow> Metadata.After m = Ticket.ID (last (map ticketOf ?pg))"
    by blast
  show ?case
  proof (cases "drop j ?xs = []")
    case True
    with r show ?thesis by simp
  next
    case False
    then have jl: "j < length ?xs" by simp
    define l where "l = min (nat (trunc32 n)) (length ?xs - j)"
    have "1 \<le> nat (trunc32 n)" using trunc32_pos[OF n] by simp
    moreover have "1 \<le> length ?xs - j" using jl by simp
    ultimately have l1: "1 \<le> l" by (simp add: l_def)
    have pgl: "length ?pg = l" by (simp add: l_def min.commute)
    have pne: "?pg \<noteq> []" using l1 pgl by auto
    have "last ?pg = ?pg ! (l - 1)" using pne pgl by (simp add: last_conv_nth)
    also have "\<dots> = drop j ?xs ! (l - 1)"
    proof -
      have "l \<le> nat (trunc32 n)" by (simp add: l_def)
      with l1 have "l - 1 < nat (trunc32 n)" by simp
      then show ?thesis by (rule nth_take)
    qed
    also have "\<dots> = ?xs ! (j + (l - 1))" using jl by (simp add: nth_drop)
    also have "j + (l - 1) = j + l - 1" using l1 by simp
    finally have lastpg: "last ?pg = ?xs ! (j + l - 1)" .
    have am: "Metadata.After m = Ticket.ID (ticketOf (?xs ! (j + l - 1)))"
      using ma False pne by (simp add: last_map lastpg)
    have j': "j + l \<le> length ?xs" using jl by (simp add: l_def)
    have a': "if j + l = 0 then Metadata.After m = uuid_Nil
              else Metadata.After m = Ticket.ID (ticketOf (?xs ! (j + l - 1)))"
      using l1 am by simp
    have k': "length ?xs - (j + l) < k" using Suc.prems(3) l1 jl by simp
    have ih: "traverse k s db n (Metadata.After m) = Some (Inr (map ticketOf (drop (j + l) ?xs)))"
      by (rule Suc.IH[OF j' a' k'])
    have "?pg = take l (drop j ?xs)"
    proof (cases "nat (trunc32 n) \<le> length ?xs - j")
      case True
      then show ?thesis by (simp add: l_def min_absorb1)
    next
      case False
      then show ?thesis by (simp add: l_def min_absorb2)
    qed
    then have "?pg @ drop (j + l) ?xs = drop j ?xs"
      by (metis add.commute append_take_drop_id drop_drop)
    then have "map ticketOf ?pg @ map ticketOf (drop (j + l) ?xs) = map ticketOf (drop j ?xs)"
      by (metis map_append)
    with r pne ih show ?thesis by simp
  qed
qed

lemma ordered_ticketDocs:
  assumes "ticketStore s db"
  shows "set (ordered db) = set (ticketDocs s db)" "length (ordered db) = length (ticketDocs s db)"
proof -
  have "\<forall>e \<in> set db. has_dateCreated e \<longleftrightarrow> fst e \<noteq> counterDocID s"
    using assms by (auto simp add: ticketStore_def has_dateCreated_def split: if_splits)
  then have "filter has_dateCreated db = ticketDocs s db"
    unfolding ticketDocs_def by (intro filter_cong) auto
  then show "set (ordered db) = set (ticketDocs s db)" "length (ordered db) = length (ticketDocs s db)"
    by (simp_all add: ordered_def)
qed

lemma ordered_ids_distinct:
  assumes "ticketStore s db"
  shows "distinct (map (\<lambda>e. Ticket.ID (ticketOf e)) (ordered db))"
proof -
  have d: "distinct (map fst db)" using assms by (simp add: ticketStore_def)
  then have "distinct (map fst (filter has_dateCreated db))" by (simp add: distinct_map_filter)
  then have "distinct (map fst (ordered db))"
    by (simp add: ordered_def distinct_map inj_on_def rev_map[symmetric])
  moreover have "map fst (ordered db) = map (\<lambda>e. uuid_String (Ticket.ID (ticketOf e))) (ordered db)"
    using ticketStore_ticket(2)[OF assms] by simp
  ultimately have "distinct (map (uuid_String \<circ> (\<lambda>e. Ticket.ID (ticketOf e))) (ordered db))"
    by (simp add: comp_def)
  then show ?thesis by (auto simp add: distinct_map dest: inj_on_imageI2)
qed

lemma traversal:
  assumes st: "ticketStore s db" and c: "map_of db (counterDocID s) = Some c" and n: "0 < n"
  shows "traverse (Suc (length (ticketDocs s db))) s db n uuid_Nil
           = Some (Inr (map ticketOf (ordered db))) \<and>
         distinct (map Ticket.ID (map ticketOf (ordered db))) \<and>
         set (ordered db) = set (ticketDocs s db) \<and>
         length (ordered db) = length (ticketDocs s db)"
proof -
  have "traverse (Suc (length (ordered db))) s db n uuid_Nil
          = Some (Inr (map ticketOf (drop 0 (ordered db))))"
    by (rule traverse_from[OF st c n]) simp_all
  then show ?thesis
    using ordered_ticketDocs[OF st] ordered_ids_distinct[OF st] by (simp add: comp_def)
qed

subsection \<open>Three tickets\<close>

lemma ticketOf_newDoc: "ticketOf (uuid_String (Ticket.ID t), newDoc now t) = stored now t"
  by (simp add: ticketOf_def toDomainTicket_def docToPersistedTicket_def uuid_Parse_String
      newDoc_def stored_def)

lemma stored_ID: "Ticket.ID (stored now t) = Ticket.ID t"
  by (simp add: stored_def)

lemma toTickets_newDoc:
  "toTickets ((uuid_String (Ticket.ID t), newDoc now t) # rest) =
     (case toTickets rest of Inl e \<Rightarrow> Inl e | Inr tt \<Rightarrow> Inr (stored now t # tt))"
  using toDomainTicket_ok[of "(uuid_String (Ticket.ID t), newDoc now t)"]
  by (simp add: uuid_Parse_String ticketOf_newDoc)

lemma position_newDoc: "position (n, newDoc now t) = (now, n)"
  by (simp add: position_def newDoc_def)

lemma has_dateCreated_newDoc: "has_dateCreated (n, newDoc now t)"
  by (simp add: has_dateCreated_def newDoc_def)

lemma has_dateCreated_counterDoc: "\<not> has_dateCreated (n, counterDoc k)"
  by (simp add: has_dateCreated_def counterDoc_def)

lemma ordered_collection3:
  assumes "ta < tb" "tb < tc"
  shows "ordered (collection3 s ta a tb b tc c) =
           [(uuid_String (Ticket.ID c), newDoc tc c),
            (uuid_String (Ticket.ID b), newDoc tb b),
            (uuid_String (Ticket.ID a), newDoc ta a)]"
  using assms
  by (simp add: ordered_def collection3_def has_dateCreated_newDoc has_dateCreated_counterDoc
      position_newDoc less_eq_prod_def)

lemma three_creates:
  assumes ids: "Ticket.ID a \<noteq> Ticket.ID b" "Ticket.ID a \<noteq> Ticket.ID c" "Ticket.ID b \<noteq> Ticket.ID c"
    and cn: "counterDocID s \<noteq> uuid_String (Ticket.ID a)" "counterDocID s \<noteq> uuid_String (Ticket.ID b)"
            "counterDocID s \<noteq> uuid_String (Ticket.ID c)"
    and v: "valid_utf8 (Title a)" "valid_utf8 (Title b)" "valid_utf8 (Title c)"
  shows "CreateTicket s ta [(counterDocID s, counterDoc 0)] a
           = (None, [(counterDocID s, counterDoc 1), (uuid_String (Ticket.ID a), newDoc ta a)])"
    "CreateTicket s tb [(counterDocID s, counterDoc 1), (uuid_String (Ticket.ID a), newDoc ta a)] b
           = (None, [(counterDocID s, counterDoc 2), (uuid_String (Ticket.ID a), newDoc ta a),
                     (uuid_String (Ticket.ID b), newDoc tb b)])"
    "CreateTicket s tc [(counterDocID s, counterDoc 2), (uuid_String (Ticket.ID a), newDoc ta a),
                     (uuid_String (Ticket.ID b), newDoc tb b)] c
           = (None, collection3 s ta a tb b tc c)"
  using ids cn v
  by (simp_all add: CreateTicket_def RunTransaction_def commit_def newDoc_def counterDoc_def
      uuid_String_inj collection3_def sat64_def)

lemma first_page:
  assumes "ta < tb" "tb < tc"
  shows "ReadTickets s (collection3 s ta a tb b tc c)
           \<lparr>Filter.Before = uuid_Nil, After = uuid_Nil, Limit = 2\<rparr>
         = ([stored tc c, stored tb b],
            \<lparr>Metadata.Before = Ticket.ID c, After = Ticket.ID b, Total = 3\<rparr>, None)"
proof -
  have d: "Documents (collection3 s ta a tb b tc c) \<lparr>limit = 2, startAfter = None, endBefore = None\<rparr>
        = Inr [(uuid_String (Ticket.ID c), newDoc tc c), (uuid_String (Ticket.ID b), newDoc tb b)]"
    by (simp add: Documents_def cursor_ok_def ordered_collection3[OF assms] in_range_def)
  have g: "Get (collection3 s ta a tb b tc c) (counterDocID s) = Inr (counterDocID s, counterDoc 3)"
    by (simp add: Get_def collection3_def)
  have tk: "toTickets [(uuid_String (Ticket.ID c), newDoc tc c), (uuid_String (Ticket.ID b), newDoc tb b)]
        = Inr [stored tc c, stored tb b]"
    by (simp add: toTickets_newDoc del: toTickets.simps(2))
  show ?thesis
    by (simp add: ReadTickets_def cursorDoc_Nil trunc32_2 d g tk docToPersistedCounter_def
        counterDoc_def Let_def stored_ID del: toTickets.simps)
qed

lemma second_page:
  assumes t: "ta < tb" "tb < tc"
    and ids: "Ticket.ID a \<noteq> Ticket.ID b" "Ticket.ID b \<noteq> uuid_Nil"
    and cn: "counterDocID s \<noteq> uuid_String (Ticket.ID b)"
  shows "ReadTickets s (collection3 s ta a tb b tc c)
           \<lparr>Filter.Before = uuid_Nil, After = Ticket.ID b, Limit = 2\<rparr>
         = ([stored ta a],
            \<lparr>Metadata.Before = Ticket.ID a, After = Ticket.ID a, Total = 3\<rparr>, None)"
proof -
  have m: "map_of (collection3 s ta a tb b tc c) (uuid_String (Ticket.ID b)) = Some (newDoc tb b)"
    using ids cn by (simp add: collection3_def uuid_String_inj)
  have ca: "cursorDoc (collection3 s ta a tb b tc c) (Ticket.ID b)
              = Inr (Some (uuid_String (Ticket.ID b), newDoc tb b))"
    using ids(2) m by (rule cursorDoc_present)
  have d: "Documents (collection3 s ta a tb b tc c)
             \<lparr>limit = 2, startAfter = Some (uuid_String (Ticket.ID b), newDoc tb b), endBefore = None\<rparr>
        = Inr [(uuid_String (Ticket.ID a), newDoc ta a)]"
    using t
    by (simp add: Documents_def cursor_ok_def ordered_collection3[OF t] in_range_def
        has_dateCreated_newDoc position_newDoc less_prod_def)
  have g: "Get (collection3 s ta a tb b tc c) (counterDocID s) = Inr (counterDocID s, counterDoc 3)"
    by (simp add: Get_def collection3_def)
  have tk: "toTickets [(uuid_String (Ticket.ID a), newDoc ta a)] = Inr [stored ta a]"
    by (simp add: toTickets_newDoc del: toTickets.simps(2))
  show ?thesis
    by (simp add: ReadTickets_def cursorDoc_Nil trunc32_2 ca d g tk docToPersistedCounter_def
        counterDoc_def Let_def stored_ID del: toTickets.simps)
qed

lemma length_uuid_String: "length (uuid_String u) = 36"
  unfolding uuid_String_def Let_def using hex_parts(1)[OF length_hex32[of u]] by simp

lemma default_counter_name: "uuid_String u \<noteq> ''--counter--''"
  using length_uuid_String[of u] by auto

lemma ticketName_String: "ticketName (uuid_String u) \<longleftrightarrow> u \<noteq> uuid_Nil"
  by (simp add: ticketName_def uuid_Parse_String)

lemma ticketStore_collection3:
  "ticketStore defaultStorer (collection3 defaultStorer 10 ticketA 20 ticketB 30 ticketC)"
  by (simp add: ticketStore_def collection3_def defaultStorer_def default_counter_name
      default_counter_name[symmetric] uuid_String_inj ticketName_String uuid_Nil_def
      counterDoc_def newDoc_def ticketA_def ticketB_def ticketC_def)

lemma ticketStore_collectionOrphan: "ticketStore defaultStorer collectionOrphan"
  by (simp add: ticketStore_def collectionOrphan_def defaultStorer_def default_counter_name
      ticketName_String uuid_Nil_def newDoc_def)

text \<open>
  A limit outside the 32-bit range is not refused: \<^verbatim>\<open>Limit(-4294967295)\<close> reaches the
  query as 1.
\<close>

lemma ReadTickets_limit_wraps:
  "ReadTickets defaultStorer collectionA
       \<lparr>Filter.Before = uuid_Nil, After = uuid_Nil, Limit = - 4294967295\<rparr>
     = ([stored 10 ticketA], \<lparr>Metadata.Before = 1, After = 1, Total = 1\<rparr>, None)"
proof -
  have l: "trunc32 (- 4294967295) = 1" by (simp add: trunc32_def)
  have i: "Ticket.ID ticketA = 1" by (simp add: ticketA_def)
  have o: "ordered collectionA = [(uuid_String 1, newDoc 10 ticketA)]"
    by (simp add: ordered_def collectionA_def has_dateCreated_newDoc has_dateCreated_counterDoc)
  have d: "Documents collectionA \<lparr>limit = 1, startAfter = None, endBefore = None\<rparr>
        = Inr [(uuid_String 1, newDoc 10 ticketA)]"
    by (simp add: Documents_def cursor_ok_def o in_range_def)
  have g: "Get collectionA (counterDocID defaultStorer)
        = Inr (counterDocID defaultStorer, counterDoc 1)"
    by (simp add: Get_def collectionA_def defaultStorer_def)
  have tk: "toTickets [(uuid_String 1, newDoc 10 ticketA)] = Inr [stored 10 ticketA]"
    using toTickets_newDoc[where t = ticketA and now = 10 and rest = "[]"]
    by (simp add: i del: toTickets.simps(2))
  show ?thesis
    by (simp add: ReadTickets_def cursorDoc_Nil l d g tk docToPersistedCounter_def
        counterDoc_def Let_def stored_ID i del: toTickets.simps)
qed

text \<open>
  C4. A page that \<^verbatim>\<open>ReadTickets\<close> returns has at most as many tickets as the limit
  the query holds, which is \<open>Limit\<close> cut to 32 bits, so at most \<open>Limit\<close> tickets when
  \<open>Limit\<close> is not negative; it is in descending order of \<open>DateCreated\<close>; the metadata's
  \<open>Before\<close> is the identifier of its first ticket and \<open>After\<close> that of its last (both
  \<^verbatim>\<open>uuid.Nil\<close> for an empty page). For tickets \<open>a\<close>, \<open>b\<close>, \<open>c\<close> with distinct
  identifiers and titles in valid UTF-8, created at increasing times on the
  provisioned empty collection, the page of limit 2 is \<open>[c, b]\<close> with
  \<open>Before = c.ID\<close> and \<open>After = b.ID\<close>, and the page of limit 2 after \<open>b.ID\<close> is
  \<open>[a]\<close>, with total 3. On a collection of tickets with its counter, for a positive
  limit, following the \<open>After\<close> cursors from the first page until an empty page
  lists every ticket document once: the concatenation of the pages is the whole
  ordered list, without a repeated identifier.
\<close>

theorem ReadTickets_pagination:
  "(\<forall>tt m. ReadTickets s db flt = (tt, m, None) \<longrightarrow>
      int (length tt) \<le> trunc32 (Limit flt) \<and>
      (0 \<le> Limit flt \<longrightarrow> int (length tt) \<le> Limit flt) \<and>
      sorted_wrt (\<lambda>x y. DateCreated y \<le> DateCreated x) tt \<and>
      Metadata.Before m = (if tt = [] then uuid_Nil else Ticket.ID (hd tt)) \<and>
      Metadata.After m = (if tt = [] then uuid_Nil else Ticket.ID (last tt))) \<and>
   (ta < tb \<and> tb < tc \<and>
    Ticket.ID a \<noteq> Ticket.ID b \<and> Ticket.ID a \<noteq> Ticket.ID c \<and> Ticket.ID b \<noteq> Ticket.ID c \<and>
    Ticket.ID b \<noteq> uuid_Nil \<and>
    counterDocID s \<noteq> uuid_String (Ticket.ID a) \<and> counterDocID s \<noteq> uuid_String (Ticket.ID b) \<and>
    counterDocID s \<noteq> uuid_String (Ticket.ID c) \<and>
    valid_utf8 (Title a) \<and> valid_utf8 (Title b) \<and> valid_utf8 (Title c) \<longrightarrow>
      CreateTicket s ta [(counterDocID s, counterDoc 0)] a
        = (None, [(counterDocID s, counterDoc 1), (uuid_String (Ticket.ID a), newDoc ta a)]) \<and>
      CreateTicket s tb [(counterDocID s, counterDoc 1), (uuid_String (Ticket.ID a), newDoc ta a)] b
        = (None, [(counterDocID s, counterDoc 2), (uuid_String (Ticket.ID a), newDoc ta a),
                  (uuid_String (Ticket.ID b), newDoc tb b)]) \<and>
      CreateTicket s tc [(counterDocID s, counterDoc 2), (uuid_String (Ticket.ID a), newDoc ta a),
                         (uuid_String (Ticket.ID b), newDoc tb b)] c
        = (None, collection3 s ta a tb b tc c) \<and>
      ReadTickets s (collection3 s ta a tb b tc c)
          \<lparr>Filter.Before = uuid_Nil, After = uuid_Nil, Limit = 2\<rparr>
        = ([stored tc c, stored tb b],
           \<lparr>Metadata.Before = Ticket.ID c, After = Ticket.ID b, Total = 3\<rparr>, None) \<and>
      ReadTickets s (collection3 s ta a tb b tc c)
          \<lparr>Filter.Before = uuid_Nil, After = Ticket.ID b, Limit = 2\<rparr>
        = ([stored ta a],
           \<lparr>Metadata.Before = Ticket.ID a, After = Ticket.ID a, Total = 3\<rparr>, None)) \<and>
   (ticketStore s db \<and> map_of db (counterDocID s) \<noteq> None \<and> 0 < n \<longrightarrow>
      traverse (Suc (length (ticketDocs s db))) s db n uuid_Nil
        = Some (Inr (map ticketOf (ordered db))) \<and>
      distinct (map Ticket.ID (map ticketOf (ordered db))) \<and>
      set (ordered db) = set (ticketDocs s db) \<and>
      length (ordered db) = length (ticketDocs s db))"
proof (intro conjI)
  show "\<forall>tt m. ReadTickets s db flt = (tt, m, None) \<longrightarrow>
      int (length tt) \<le> trunc32 (Limit flt) \<and>
      (0 \<le> Limit flt \<longrightarrow> int (length tt) \<le> Limit flt) \<and>
      sorted_wrt (\<lambda>x y. DateCreated y \<le> DateCreated x) tt \<and>
      Metadata.Before m = (if tt = [] then uuid_Nil else Ticket.ID (hd tt)) \<and>
      Metadata.After m = (if tt = [] then uuid_Nil else Ticket.ID (last tt))"
    using page_shape by blast
next
  show "ta < tb \<and> tb < tc \<and>
    Ticket.ID a \<noteq> Ticket.ID b \<and> Ticket.ID a \<noteq> Ticket.ID c \<and> Ticket.ID b \<noteq> Ticket.ID c \<and>
    Ticket.ID b \<noteq> uuid_Nil \<and>
    counterDocID s \<noteq> uuid_String (Ticket.ID a) \<and> counterDocID s \<noteq> uuid_String (Ticket.ID b) \<and>
    counterDocID s \<noteq> uuid_String (Ticket.ID c) \<and>
    valid_utf8 (Title a) \<and> valid_utf8 (Title b) \<and> valid_utf8 (Title c) \<longrightarrow>
      CreateTicket s ta [(counterDocID s, counterDoc 0)] a
        = (None, [(counterDocID s, counterDoc 1), (uuid_String (Ticket.ID a), newDoc ta a)]) \<and>
      CreateTicket s tb [(counterDocID s, counterDoc 1), (uuid_String (Ticket.ID a), newDoc ta a)] b
        = (None, [(counterDocID s, counterDoc 2), (uuid_String (Ticket.ID a), newDoc ta a),
                  (uuid_String (Ticket.ID b), newDoc tb b)]) \<and>
      CreateTicket s tc [(counterDocID s, counterDoc 2), (uuid_String (Ticket.ID a), newDoc ta a),
                         (uuid_String (Ticket.ID b), newDoc tb b)] c
        = (None, collection3 s ta a tb b tc c) \<and>
      ReadTickets s (collection3 s ta a tb b tc c)
          \<lparr>Filter.Before = uuid_Nil, After = uuid_Nil, Limit = 2\<rparr>
        = ([stored tc c, stored tb b],
           \<lparr>Metadata.Before = Ticket.ID c, After = Ticket.ID b, Total = 3\<rparr>, None) \<and>
      ReadTickets s (collection3 s ta a tb b tc c)
          \<lparr>Filter.Before = uuid_Nil, After = Ticket.ID b, Limit = 2\<rparr>
        = ([stored ta a],
           \<lparr>Metadata.Before = Ticket.ID a, After = Ticket.ID a, Total = 3\<rparr>, None)"
    using three_creates first_page second_page by (intro impI conjI; elim conjE) blast+
next
  show "ticketStore s db \<and> map_of db (counterDocID s) \<noteq> None \<and> 0 < n \<longrightarrow>
      traverse (Suc (length (ticketDocs s db))) s db n uuid_Nil
        = Some (Inr (map ticketOf (ordered db))) \<and>
      distinct (map Ticket.ID (map ticketOf (ordered db))) \<and>
      set (ordered db) = set (ticketDocs s db) \<and>
      length (ordered db) = length (ticketDocs s db)"
  proof (intro impI, elim conjE)
    assume st: "ticketStore s db" and c: "map_of db (counterDocID s) \<noteq> None" and n: "0 < n"
    from c obtain cd where "map_of db (counterDocID s) = Some cd" by blast
    from traversal[OF st this n] show "traverse (Suc (length (ticketDocs s db))) s db n uuid_Nil
        = Some (Inr (map ticketOf (ordered db))) \<and>
      distinct (map Ticket.ID (map ticketOf (ordered db))) \<and>
      set (ordered db) = set (ticketDocs s db) \<and>
      length (ordered db) = length (ticketDocs s db)" .
  qed
qed

theorem ReadTickets_pagination_witness:
  "ticketStore defaultStorer (collection3 defaultStorer 10 ticketA 20 ticketB 30 ticketC) \<and>
   map_of (collection3 defaultStorer 10 ticketA 20 ticketB 30 ticketC) (counterDocID defaultStorer)
     = Some (counterDoc 3) \<and>
   ReadTickets defaultStorer (collection3 defaultStorer 10 ticketA 20 ticketB 30 ticketC)
       \<lparr>Filter.Before = uuid_Nil, After = uuid_Nil, Limit = 2\<rparr>
     = ([stored 30 ticketC, stored 20 ticketB],
        \<lparr>Metadata.Before = 3, After = 2, Total = 3\<rparr>, None) \<and>
   ReadTickets defaultStorer (collection3 defaultStorer 10 ticketA 20 ticketB 30 ticketC)
       \<lparr>Filter.Before = uuid_Nil, After = 2, Limit = 2\<rparr>
     = ([stored 10 ticketA], \<lparr>Metadata.Before = 1, After = 1, Total = 3\<rparr>, None) \<and>
   traverse (Suc 3) defaultStorer (collection3 defaultStorer 10 ticketA 20 ticketB 30 ticketC) 2
       uuid_Nil
     = Some (Inr [stored 30 ticketC, stored 20 ticketB, stored 10 ticketA])"
proof -
  let ?db = "collection3 defaultStorer 10 ticketA 20 ticketB 30 ticketC"
  note P = ReadTickets_pagination[where s = defaultStorer and db = ?db
      and flt = "\<lparr>Filter.Before = uuid_Nil, After = uuid_Nil, Limit = 2\<rparr>"
      and ta = 10 and tb = 20 and tc = 30 and a = ticketA and b = ticketB and c = ticketC
      and n = 2]
  have ids: "Ticket.ID ticketA = 1" "Ticket.ID ticketB = 2" "Ticket.ID ticketC = 3"
    by (simp_all add: ticketA_def ticketB_def ticketC_def)
  have h2: "(10::nat) < 20 \<and> (20::nat) < 30 \<and>
    Ticket.ID ticketA \<noteq> Ticket.ID ticketB \<and> Ticket.ID ticketA \<noteq> Ticket.ID ticketC \<and>
    Ticket.ID ticketB \<noteq> Ticket.ID ticketC \<and> Ticket.ID ticketB \<noteq> uuid_Nil \<and>
    counterDocID defaultStorer \<noteq> uuid_String (Ticket.ID ticketA) \<and>
    counterDocID defaultStorer \<noteq> uuid_String (Ticket.ID ticketB) \<and>
    counterDocID defaultStorer \<noteq> uuid_String (Ticket.ID ticketC) \<and>
    valid_utf8 (Title ticketA) \<and> valid_utf8 (Title ticketB) \<and> valid_utf8 (Title ticketC)"
    by (simp add: ids uuid_Nil_def defaultStorer_def default_counter_name[symmetric])
       (simp add: ticketA_def ticketB_def ticketC_def)
  have c: "map_of ?db (counterDocID defaultStorer) = Some (counterDoc 3)"
    by (simp add: collection3_def)
  have h3: "ticketStore defaultStorer ?db \<and> map_of ?db (counterDocID defaultStorer) \<noteq> None \<and>
    (0::int) < 2"
    using ticketStore_collection3 c by simp
  have o: "map ticketOf (ordered ?db) = [stored 30 ticketC, stored 20 ticketB, stored 10 ticketA]"
    by (simp add: ordered_collection3 ticketOf_newDoc)
  have r: "ReadTickets defaultStorer ?db \<lparr>Filter.Before = uuid_Nil, After = uuid_Nil, Limit = 2\<rparr>
     = ([stored 30 ticketC, stored 20 ticketB],
        \<lparr>Metadata.Before = Ticket.ID ticketC, After = Ticket.ID ticketB, Total = 3\<rparr>, None)"
    "ReadTickets defaultStorer ?db \<lparr>Filter.Before = uuid_Nil, After = Ticket.ID ticketB, Limit = 2\<rparr>
     = ([stored 10 ticketA],
        \<lparr>Metadata.Before = Ticket.ID ticketA, After = Ticket.ID ticketA, Total = 3\<rparr>, None)"
    using P h2 by blast+
  have t: "traverse (Suc (length (ticketDocs defaultStorer ?db))) defaultStorer ?db 2 uuid_Nil
        = Some (Inr (map ticketOf (ordered ?db)))"
    "length (ordered ?db) = length (ticketDocs defaultStorer ?db)"
    using P h3 by blast+
  have "length (ordered ?db) = 3" by (simp add: ordered_collection3)
  with t have "traverse (Suc 3) defaultStorer ?db 2 uuid_Nil
        = Some (Inr [stored 30 ticketC, stored 20 ticketB, stored 10 ticketA])"
    by (simp only: o)
  with r c ticketStore_collection3 show ?thesis by (simp only: ids)
qed

lemma map_of_collectionA_2: "map_of collectionA (uuid_String 2) = None"
  by (simp add: collectionA_def default_counter_name uuid_String_inj)

theorem ReadTickets_errors_witness:
  "(2::UUID) \<noteq> uuid_Nil \<and> map_of collectionA (uuid_String 2) = None \<and>
   ReadTickets defaultStorer collectionA \<lparr>Filter.Before = uuid_Nil, After = 2, Limit = 10\<rparr>
     = ([], zeroMetadata, Some ErrTicketNotFound) \<and>
   ticketStore defaultStorer collectionOrphan \<and>
   map_of collectionOrphan (counterDocID defaultStorer) = None \<and>
   ReadTickets defaultStorer collectionOrphan
       \<lparr>Filter.Before = uuid_Nil, After = uuid_Nil, Limit = 10\<rparr>
     = ([], zeroMetadata, Some ErrCounterNotFound)"
proof -
  have c: "map_of collectionOrphan (counterDocID defaultStorer) = None"
    by (simp add: collectionOrphan_def defaultStorer_def default_counter_name[symmetric])
  have n: "(2::UUID) \<noteq> uuid_Nil" by (simp add: uuid_Nil_def)
  have 1: "ReadTickets defaultStorer collectionA
             \<lparr>Filter.Before = uuid_Nil, After = 2, Limit = 10\<rparr>
           = ([], zeroMetadata, Some ErrTicketNotFound)"
    using n map_of_collectionA_2
      ReadTickets_errors[where s = defaultStorer and db = collectionA
        and flt = "\<lparr>Filter.Before = uuid_Nil, After = 2, Limit = 10\<rparr>"]
    by simp
  have 2: "ReadTickets defaultStorer collectionOrphan
             \<lparr>Filter.Before = uuid_Nil, After = uuid_Nil, Limit = 10\<rparr>
           = ([], zeroMetadata, Some ErrCounterNotFound)"
    using c ticketStore_collectionOrphan
      ReadTickets_errors[where s = defaultStorer and db = collectionOrphan
        and flt = "\<lparr>Filter.Before = uuid_Nil, After = uuid_Nil, Limit = 10\<rparr>"]
    by simp
  show ?thesis using n map_of_collectionA_2 1 2 c ticketStore_collectionOrphan by simp
qed

end
